theory Spec2Isabelle
  imports Main "HOL-Library.AList" "HOL-Library.Sublist"
begin

section \<open>Configuration (the interfaces at the end of src/src/process.ts)\<close>

text \<open>
  The three configuration interfaces. Optional fields (\<open>dir?\<close>, \<open>env?\<close>, \<open>install?\<close>,
  \<open>stop?\<close>) are options. The fields of \<open>MuxProcessConfig\<close> and \<open>MuxConfig.logPath\<close> carry
  the prefix \<open>cfg_\<close>, since \<open>name\<close>, \<open>logPath\<close>, \<open>install\<close> and \<open>stop\<close> are also members of
  the class \<open>MuxProcess\<close>. An environment is an association list in insertion order.
\<close>

record MuxCommand =
  exec :: string
  dir :: "string option"
  env :: "(string \<times> string) list option"

record MuxProcessConfig =
  cfg_name :: string
  cfg_run :: MuxCommand
  cfg_install :: "MuxCommand option"
  cfg_stop :: "MuxCommand option"

record MuxConfig =
  rootDir :: string
  cfg_logPath :: string
  cfg_processes :: "MuxProcessConfig list"

section \<open>The world outside the supervisor\<close>

text \<open>
  Everything the supervisor touches outside its own objects: the file system (path to
  content), the operating system's process table (a counter hands out the pids of spawned
  children), the per-child closures that \<open>runCommand\<close> registers (\<open>streams\<close>: the log file the
  child's write stream appends to and the name its error messages carry; \<open>settled\<close>: the value
  the child's promise was resolved with, \<open>None\<close> while it is pending), the messages given to
  the injected \<open>MuxLogger\<close>, and the effects on the operating system in the order they were
  issued. \<open>process_env\<close> is \<open>process.env\<close>, \<open>self_pid\<close> is \<open>process.pid\<close> and \<open>now\<close> is the
  reading of \<open>performance.now()\<close> in whole milliseconds. File-system calls are taken to
  succeed; the only failure the source handles, the error a stream write passes to its
  callback, is an argument of the handlers below.
\<close>

datatype level = LOG | INFO | DEBUG | WARN | ERROR

datatype signal = SIGTERM | SIGINT

datatype effect =
    Mkdir string
  | AppendFile string string
  | Truncate string
  | Spawn nat string "string list" "(string \<times> string) list"
  | TreeKill nat signal
  | ProcessKill nat signal
  | TerminalReset
  | ProcessExit

record IPty =
  pid :: nat

record world =
  files :: "string \<Rightarrow> string option"
  next_pid :: nat
  streams :: "nat \<Rightarrow> (string \<times> string) option"
  settled :: "nat \<Rightarrow> int option"
  process_env :: "(string \<times> string) list"
  self_pid :: nat
  now :: nat
  logged :: "(level \<times> string) list"
  trace :: "effect list"

definition logger :: "level \<Rightarrow> string \<Rightarrow> world \<Rightarrow> world" where
  "logger l m w = w\<lparr>logged := logged w @ [(l, m)]\<rparr>"

definition emit :: "effect \<Rightarrow> world \<Rightarrow> world" where
  "emit e w = w\<lparr>trace := trace w @ [e]\<rparr>"

definition mkdirSync :: "string \<Rightarrow> world \<Rightarrow> world" where
  "mkdirSync p w = emit (Mkdir p) w"

definition appendFileSync :: "string \<Rightarrow> string \<Rightarrow> world \<Rightarrow> world" where
  "appendFileSync p d w =
     emit (AppendFile p d)
       (w\<lparr>files := (files w)(p \<mapsto> (case files w p of None \<Rightarrow> d | Some c \<Rightarrow> c @ d))\<rparr>)"

text \<open>
  \<open>fs.truncateSync(p, 0)\<close>. The source calls it only on a path that \<open>getLogPath\<close> has created
  before, so the case of a missing file (ENOENT in Node) does not arise.
\<close>

definition truncateSync :: "string \<Rightarrow> world \<Rightarrow> world" where
  "truncateSync p w = emit (Truncate p) (w\<lparr>files := (files w)(p \<mapsto> [])\<rparr>)"

text \<open>\<open>spawn\<close> of node-pty: the new child gets the next pid of the process table.\<close>

definition spawn :: "string \<Rightarrow> string list \<Rightarrow> (string \<times> string) list \<Rightarrow> world \<Rightarrow> IPty \<times> world" where
  "spawn bin args e w =
     (\<lparr>pid = next_pid w\<rparr>, emit (Spawn (next_pid w) bin args e) (w\<lparr>next_pid := Suc (next_pid w)\<rparr>))"

text \<open>
  \<open>stream.write(data, callback)\<close> on a write stream opened with flag \<open>a\<close>, together with the
  callback both handlers of \<open>runCommand\<close> pass: the data is appended unless the write fails,
  and a failure is reported through \<open>logger.error\<close>.
\<close>

definition stream_write :: "string \<Rightarrow> string \<Rightarrow> string \<Rightarrow> string option \<Rightarrow> world \<Rightarrow> world" where
  "stream_write owner p d err w =
     (case err of
        None \<Rightarrow> w\<lparr>files := (files w)(p \<mapsto> (case files w p of None \<Rightarrow> d | Some c \<Rightarrow> c @ d))\<rparr>
      | Some e \<Rightarrow> logger ERROR (owner @ '': Error while writing to log file '' @ e) w)"

section \<open>Strings\<close>

text \<open>Template literals render a number in decimal.\<close>

fun show_nat :: "nat \<Rightarrow> string" where
  "show_nat n =
     (if n < 10 then [''0123456789'' ! n]
      else show_nat (n div 10) @ [''0123456789'' ! (n mod 10)])"

definition show_int :: "int \<Rightarrow> string" where
  "show_int i = (if i < 0 then CHR ''-'' # show_nat (nat (- i)) else show_nat (nat i))"

text \<open>\<open>Array.prototype.join\<close>.\<close>

fun join :: "string \<Rightarrow> string list \<Rightarrow> string" where
  "join sep [] = []"
| "join sep [x] = x"
| "join sep (x # y # ys) = x @ sep @ join sep (y # ys)"

text \<open>
  \<open>String.prototype.toLowerCase\<close> on the ASCII letters (a \<open>char\<close> is a byte), and
  \<open>replace(/ /g, '-')\<close>.
\<close>

definition toLowerCase :: "string \<Rightarrow> string" where
  "toLowerCase s =
     map (\<lambda>c. case map_of (zip ''ABCDEFGHIJKLMNOPQRSTUVWXYZ'' ''abcdefghijklmnopqrstuvwxyz'') c of
                 None \<Rightarrow> c | Some l \<Rightarrow> l) s"

definition replace_spaces :: "string \<Rightarrow> string" where
  "replace_spaces s = map (\<lambda>c. if c = CHR '' '' then CHR ''-'' else c) s"

text \<open>
  \<open>path.join\<close> of Node, without its normalisation of \<open>.\<close>, \<open>..\<close> and doubled separators: no
  property below depends on the spelling of a path.
\<close>

definition path_join :: "string \<Rightarrow> string \<Rightarrow> string" where
  "path_join a b = a @ ''/'' @ b"

text \<open>
  The object spread \<open>{...process.env, ...env}\<close>: a key already present keeps its place and
  takes the new value, a new key goes to the end.
\<close>

definition spread :: "(string \<times> string) list \<Rightarrow> (string \<times> string) list \<Rightarrow> (string \<times> string) list" where
  "spread base extra = fold (\<lambda>(k, v). AList.update k v) extra base"

text \<open>\<open>JSON.stringify\<close> of an environment, without the escaping of special characters.\<close>

definition json_stringify :: "(string \<times> string) list \<Rightarrow> string" where
  "json_stringify e =
     ''{'' @ join '','' (map (\<lambda>(k, v). [CHR 0x22] @ k @ [CHR 0x22] @ '':'' @ [CHR 0x22] @ v @ [CHR 0x22]) e) @ ''}''"

section \<open>Promises and suspended calls\<close>

text \<open>
  A promise of the program is either \<open>Promise.resolve(n)\<close> or the promise \<open>runCommand\<close>
  creates for a spawned child, which the child's exit handler resolves; no promise of
  \<open>MuxProcess\<close> is ever rejected. An \<open>async\<close> method runs up to its first \<open>await\<close> when it is
  called; what it hands back is either its return value or the promise it waits for together
  with the point (\<open>frame\<close>) where it resumes once that promise is settled.
\<close>

datatype promise = Resolved int | Exit nat

datatype val = Void | Num int

datatype frame = AfterStart | AfterInstall | AfterStopCommand | AfterStartPromise

datatype task = Returned val | Awaiting promise frame

definition promise_state :: "world \<Rightarrow> promise \<Rightarrow> int option" where
  "promise_state w p = (case p of Resolved n \<Rightarrow> Some n | Exit c \<Rightarrow> settled w c)"

section \<open>The class MuxProcess (src/src/process.ts)\<close>

record MuxProcess =
  name :: string
  muxConfig :: MuxConfig
  processConfig :: MuxProcessConfig
  children :: "IPty list"
  logPath :: "string option"
  startPromise :: "promise option"

definition MuxProcess_new :: "MuxConfig \<Rightarrow> MuxProcessConfig \<Rightarrow> MuxProcess" where
  "MuxProcess_new mc pc =
     \<lparr>name = cfg_name pc, muxConfig = mc, processConfig = pc, children = [],
      logPath = None, startPromise = None\<rparr>"

definition getLogPath :: "MuxProcess \<times> world \<Rightarrow> string \<times> (MuxProcess \<times> world)" where
  "getLogPath = (\<lambda>(P, w).
     let logDir = path_join (rootDir (muxConfig P)) (cfg_logPath (muxConfig P));
         p = path_join logDir (replace_spaces (toLowerCase (name P)) @ ''.log'');
         created = (p, (P\<lparr>logPath := Some p\<rparr>,
                        truncateSync p (appendFileSync p [] (mkdirSync logDir w))))
     in case logPath P of
          None \<Rightarrow> created
        | Some q \<Rightarrow> if q = [] then created else (q, (P, w)))"

text \<open>
  \<open>runCommand\<close> has no \<open>await\<close>: it runs to its end when called and returns the promise.
  The two handlers it registers on the child are \<open>onData\<close> and \<open>onExit\<close> below; what they
  capture (the stream and the name) is kept in \<open>streams\<close>, and the new promise starts
  pending.
\<close>

definition runCommand :: "MuxCommand option \<Rightarrow> MuxProcess \<times> world \<Rightarrow> promise \<times> (MuxProcess \<times> world)" where
  "runCommand command = (\<lambda>(P, w).
     case command of
       None \<Rightarrow> (Resolved 0, (P, logger WARN ''No command passed. Exiting with code 0'' w))
     | Some c \<Rightarrow>
         let dir' = (case dir c of None \<Rightarrow> ''./'' | Some d \<Rightarrow> d);
             env' = (case env c of None \<Rightarrow> [] | Some e \<Rightarrow> e);
             cwd = path_join (rootDir (muxConfig P)) dir';
             bin = ''sh'';
             args = [''-c'', ''cd '' @ cwd @ '' && '' @ exec c];
             w1 = logger INFO (name P @ '': Executing '' @ [CHR 0x22] @ bin @ '' '' @ join '' '' args @ [CHR 0x22]) w;
             w2 = logger DEBUG (name P @ '': Environtment variables: '' @ json_stringify env') w1;
             (child, w3) = spawn bin args (spread (process_env w2) env') w2;
             (p, (P1, w4)) = getLogPath (P, w3);
             w5 = w4\<lparr>streams := (streams w4)(pid child \<mapsto> (p, name P)),
                     settled := (settled w4)(pid child := None)\<rparr>
         in (Exit (pid child), (P1\<lparr>children := children P1 @ [child]\<rparr>, w5)))"

text \<open>The handler \<open>child.onData\<close>: output of child \<open>c\<close> arrives.\<close>

definition onData :: "nat \<Rightarrow> string \<Rightarrow> string option \<Rightarrow> world \<Rightarrow> world" where
  "onData c d err w =
     (case streams w c of
        None \<Rightarrow> w
      | Some (p, owner) \<Rightarrow> stream_write owner p d err w)"

text \<open>
  The handler \<open>child.onExit\<close>: child \<open>c\<close> has exited with \<open>exitCode\<close>. The marker is written,
  the stream is closed and the promise is resolved with the code (resolving a promise a
  second time changes nothing).
\<close>

definition onExit :: "nat \<Rightarrow> int \<Rightarrow> string option \<Rightarrow> world \<Rightarrow> world" where
  "onExit c exitCode err w =
     (case streams w c of
        None \<Rightarrow> w
      | Some (p, owner) \<Rightarrow>
          let w1 = stream_write owner p (''exited with code '' @ show_int exitCode) err w
          in w1\<lparr>settled := (case settled w1 c of
                               None \<Rightarrow> (settled w1)(c \<mapsto> exitCode)
                             | Some _ \<Rightarrow> settled w1)\<rparr>)"

definition treeKill :: "nat \<Rightarrow> signal \<Rightarrow> world \<Rightarrow> world" where
  "treeKill p sig w = emit (TreeKill p sig) w"

text \<open>The part of \<open>stop\<close> after the stop command: the loop over \<open>children\<close> and the last \<open>await\<close>.\<close>

definition stop_shutdown :: "MuxProcess \<times> world \<Rightarrow> task \<times> (MuxProcess \<times> world)" where
  "stop_shutdown = (\<lambda>(P, w).
     let w1 = logger INFO (name P @ '': shutting down'') w;
         w2 = fold (\<lambda>child w'. if pid child \<noteq> 0 then treeKill (pid child) SIGTERM w' else w')
                (children P) w1
     in case startPromise P of
          Some p \<Rightarrow> (Awaiting p AfterStartPromise, (P, w2))
        | None \<Rightarrow> (Returned Void, (P, w2)))"

definition stop :: "MuxProcess \<times> world \<Rightarrow> task \<times> (MuxProcess \<times> world)" where
  "stop = (\<lambda>(P, w).
     let w1 = logger INFO (name P @ '': cleaning up'') w
     in case cfg_stop (processConfig P) of
          Some c \<Rightarrow> (let (p, s) = runCommand (Some c) (P, w1) in (Awaiting p AfterStopCommand, s))
        | None \<Rightarrow> stop_shutdown (P, w1))"

definition install :: "MuxProcess \<times> world \<Rightarrow> task \<times> (MuxProcess \<times> world)" where
  "install = (\<lambda>(P, w).
     let (p, (P1, w1)) = getLogPath (P, w);
         w2 = logger DEBUG (name P1 @ '': truncating log file at '' @ p) w1;
         (q, (P2, w3)) = getLogPath (P1, w2);
         w4 = truncateSync q w3
     in case cfg_install (processConfig P2) of
          None \<Rightarrow> (Returned (Num 0), (P2, w4))
        | Some c \<Rightarrow>
            (let w5 = logger INFO (name P2 @ '': installing'') w4;
                 (pr, s) = runCommand (Some c) (P2, w5)
             in (Awaiting pr AfterInstall, s)))"

definition start :: "MuxProcess \<times> world \<Rightarrow> task \<times> (MuxProcess \<times> world)" where
  "start = (\<lambda>(P, w).
     let w1 = logger INFO (name P @ '': starting'') w;
         (p, (P1, w2)) = runCommand (Some (cfg_run (processConfig P))) (P, w1)
     in (Awaiting p AfterStart, (P1\<lparr>startPromise := Some p\<rparr>, w2)))"

text \<open>
  What a suspended call does when the promise it awaits has been settled with \<open>v\<close>:
  \<open>start\<close> returns, \<open>install\<close> returns the code, \<open>stop\<close> goes on after its stop command or
  returns after the run future.
\<close>

fun resume :: "frame \<Rightarrow> int \<Rightarrow> MuxProcess \<times> world \<Rightarrow> task \<times> (MuxProcess \<times> world)" where
  "resume AfterStart v s = (Returned Void, s)"
| "resume AfterInstall v s = (Returned (Num v), s)"
| "resume AfterStopCommand v s = stop_shutdown s"
| "resume AfterStartPromise v s = (Returned Void, s)"

text \<open>One turn of the event loop for a call: it resumes if, and only if, its promise is settled.\<close>

definition advance :: "task \<Rightarrow> MuxProcess \<times> world \<Rightarrow> task \<times> (MuxProcess \<times> world)" where
  "advance t s =
     (case t of
        Returned v \<Rightarrow> (t, s)
      | Awaiting p k \<Rightarrow>
          (case promise_state (snd s) p of
             None \<Rightarrow> (t, s)
           | Some v \<Rightarrow> resume k v s))"

text \<open>
  A call is run as far as the settled promises allow: \<open>stop\<close> has two \<open>await\<close>s, so a second
  turn follows the first.
\<close>

definition settle :: "task \<Rightarrow> MuxProcess \<times> world \<Rightarrow> task \<times> (MuxProcess \<times> world)" where
  "settle t s = (let (t1, s1) = advance t s in advance t1 s1)"

section \<open>The class MuxUI (first part of src/unnamed/part_001): shutdown\<close>

text \<open>
  \<open>processes.map(process => process.stop())\<close>: the calls are made one after the other, each
  up to its first \<open>await\<close>.
\<close>

fun stop_each :: "MuxProcess list \<Rightarrow> world \<Rightarrow> (task list \<times> MuxProcess list) \<times> world" where
  "stop_each [] w = (([], []), w)"
| "stop_each (P # Ps) w =
     (let (t, (P', w1)) = stop (P, w);
          ((ts, Ps'), w2) = stop_each Ps w1
      in ((t # ts, P' # Ps'), w2))"

text \<open>The calls that \<open>Promise.all\<close> waits for are run as far as the settled promises allow.\<close>

fun settle_each :: "task list \<Rightarrow> MuxProcess list \<Rightarrow> world \<Rightarrow> (task list \<times> MuxProcess list) \<times> world" where
  "settle_each (t # ts) (P # Ps) w =
     (let (t', (P', w1)) = settle t (P, w);
          ((ts', Ps'), w2) = settle_each ts Ps w1
      in ((t' # ts', P' # Ps'), w2))"
| "settle_each [] Ps w = (([], Ps), w)"
| "settle_each ts [] w = ((ts, []), w)"

fun is_Returned :: "task \<Rightarrow> bool" where
  "is_Returned (Returned v) = True"
| "is_Returned (Awaiting p k) = False"

record MuxUI =
  processes :: "MuxProcess list"
  stopped :: bool

text \<open>
  A call of \<open>die\<close> is either waiting at its \<open>Promise.all\<close>, holding the start time it read
  and the \<open>stop\<close> calls it made, or it has returned.
\<close>

datatype die_task = DieAwaiting nat "task list" | DieReturned

definition die :: "MuxUI \<times> world \<Rightarrow> die_task \<times> (MuxUI \<times> world)" where
  "die = (\<lambda>(U, w).
     let U1 = U\<lparr>stopped := True\<rparr>;
         startTime = now w;
         w1 = logger INFO ''cleaning up...'' w;
         ((ts, Ps), w2) = stop_each (processes U1) w1
     in (DieAwaiting startTime ts, (U1\<lparr>processes := Ps\<rparr>, w2)))"

text \<open>The rest of \<open>die\<close>, after \<open>Promise.all\<close>: the supervisor interrupts itself.\<close>

definition die_finish :: "nat \<Rightarrow> MuxUI \<times> world \<Rightarrow> MuxUI \<times> world" where
  "die_finish startTime = (\<lambda>(U, w).
     let w1 = logger DEBUG (''Sending SIGINT to my PID: '' @ show_nat (self_pid w)) w;
         w2 = emit (ProcessKill (self_pid w1) SIGINT) w1;
         w3 = logger DEBUG (''Shut down took '' @ show_nat (now w2 - startTime) @ ''ms'') w2
     in (U, w3))"

definition die_advance :: "die_task \<Rightarrow> MuxUI \<times> world \<Rightarrow> die_task \<times> (MuxUI \<times> world)" where
  "die_advance d = (\<lambda>(U, w).
     case d of
       DieReturned \<Rightarrow> (DieReturned, (U, w))
     | DieAwaiting startTime ts \<Rightarrow>
         (let ((ts', Ps), w1) = settle_each ts (processes U) w;
              U1 = U\<lparr>processes := Ps\<rparr>
          in if list_all is_Returned ts' then (DieReturned, die_finish startTime (U1, w1))
             else (DieAwaiting startTime ts', (U1, w1))))"

section \<open>cleanExit (src/src/main.ts)\<close>

text \<open>
  The closure \<open>cleanExit\<close> and the variable \<open>stopped\<close> it guards, here \<open>cleanExit_stopped\<close>
  (the field \<open>stopped\<close> of \<open>MuxUI\<close> is another variable).
\<close>

record Main =
  cleanExit_stopped :: bool
  ui :: MuxUI
  os :: world

datatype exit_task = CleanExitAwaiting die_task | CleanExitReturned

definition cleanExit :: "Main \<Rightarrow> exit_task \<times> Main" where
  "cleanExit M =
     (if cleanExit_stopped M then (CleanExitReturned, M)
      else let M1 = M\<lparr>cleanExit_stopped := True\<rparr>;
               w1 = emit TerminalReset (os M1);
               (d, (U, w2)) = die (ui M1, w1)
           in (CleanExitAwaiting d, M1\<lparr>ui := U, os := w2\<rparr>))"

definition cleanExit_advance :: "exit_task \<Rightarrow> Main \<Rightarrow> exit_task \<times> Main" where
  "cleanExit_advance t M =
     (case t of
        CleanExitReturned \<Rightarrow> (t, M)
      | CleanExitAwaiting d \<Rightarrow>
          (let (d', (U, w)) = die_advance d (ui M, os M);
               M1 = M\<lparr>ui := U, os := w\<rparr>
           in case d' of
                DieAwaiting startTime ts \<Rightarrow> (CleanExitAwaiting d', M1)
              | DieReturned \<Rightarrow>
                  (CleanExitReturned,
                   M1\<lparr>os := emit ProcessExit (logger DEBUG ''Exiting my process...'' w)\<rparr>)))"

section \<open>The class MuxUI: the state graph\<close>

text \<open>
  The nodes are objects that refer to each other in cycles, and \<open>buildStateGraph\<close> mutates
  two of them after their creation, so the graph is a store from references to nodes. A
  node has the optional members by which \<open>handleNextState\<close> tells the four kinds apart. An
  action supplier is named by what its \<open>start\<close> does. \<open>Placeholder\<close> is the function
  \<open>() => {}\<close> that \<open>onAnyKeypress\<close> holds until it is replaced.
\<close>

datatype node_ref =
    Quit | StartMenu | RebuildAll
  | ProcessTail nat | ProcessRestart nat | ProcessRebuild nat | ProcessMenu nat
  | Placeholder

datatype action = DieAction | RebuildAllAction | TailAction nat | RestartAction nat | RebuildAction nat

record StateNode =
  node_name :: string
  getAction :: "action option"
  menu :: "node_ref list option"
  onAnyKeypress :: "node_ref option"
  onActionComplete :: "node_ref option"

type_synonym graph = "node_ref \<Rightarrow> StateNode option"

definition node :: "string \<Rightarrow> StateNode" where
  "node n = \<lparr>node_name = n, getAction = None, menu = None, onAnyKeypress = None,
             onActionComplete = None\<rparr>"

text \<open>\<open>m.menu.unshift(x)\<close>.\<close>

definition unshift :: "node_ref \<Rightarrow> node_ref \<Rightarrow> graph \<Rightarrow> graph" where
  "unshift m x g =
     (case g m of
        None \<Rightarrow> g
      | Some n \<Rightarrow> (case menu n of None \<Rightarrow> g | Some xs \<Rightarrow> g(m \<mapsto> n\<lparr>menu := Some (x # xs)\<rparr>)))"

text \<open>The body of the loop of \<open>buildStateGraph\<close> for the process at index \<open>i\<close>.\<close>

definition add_process :: "nat \<Rightarrow> MuxProcess \<Rightarrow> graph \<Rightarrow> graph" where
  "add_process i process g =
     (let g1 = g(ProcessTail i \<mapsto>
                  (node (name process @ '':tail''))
                    \<lparr>getAction := Some (TailAction i), onAnyKeypress := Some Placeholder\<rparr>);
          g2 = g1(ProcessRestart i \<mapsto>
                  (node (name process @ '':restart''))
                    \<lparr>getAction := Some (RestartAction i), onActionComplete := Some (ProcessTail i)\<rparr>);
          g3 = g2(ProcessRebuild i \<mapsto>
                  (node (name process @ '':rebuild''))
                    \<lparr>getAction := Some (RebuildAction i), onActionComplete := Some (ProcessTail i)\<rparr>);
          g4 = g3(ProcessMenu i \<mapsto>
                  (node (name process @ '':menu''))
                    \<lparr>menu := Some [StartMenu, ProcessTail i, ProcessRestart i, ProcessRebuild i]\<rparr>);
          g5 = (case g4 (ProcessTail i) of
                  None \<Rightarrow> g4
                | Some t \<Rightarrow> g4(ProcessTail i \<mapsto> t\<lparr>onAnyKeypress := Some (ProcessMenu i)\<rparr>))
      in unshift StartMenu (ProcessTail i) g5)"

function build_loop :: "nat \<Rightarrow> MuxProcess list \<Rightarrow> graph \<Rightarrow> graph" where
  "build_loop i ps g =
     (if i < length ps then build_loop (Suc i) ps (add_process i (ps ! i) g) else g)"
  by pat_completeness auto
termination
  by (relation "measure (\<lambda>(i, ps, g). length ps - i)") auto

declare build_loop.simps [simp del]

definition buildStateGraph :: "MuxProcess list \<Rightarrow> graph \<times> node_ref" where
  "buildStateGraph ps =
     (let g0 = [Placeholder \<mapsto> node ''onAnyKeypress'',
                Quit \<mapsto> (node ''quit'')\<lparr>getAction := Some DieAction\<rparr>,
                StartMenu \<mapsto> (node ''main menu'')\<lparr>menu := Some [Quit]\<rparr>,
                RebuildAll \<mapsto> (node ''rebuild all processes'')
                              \<lparr>getAction := Some RebuildAllAction, onActionComplete := Some StartMenu\<rparr>];
          g1 = unshift StartMenu RebuildAll g0
      in (build_loop 0 ps g1, StartMenu))"

section \<open>The class MuxUI: handleNextState\<close>

text \<open>
  What the collaborators deliver: the index \<open>onChoicePrompt\<close> resolves with, the key
  \<open>waitForNextKey\<close> resolves on, and the completion of the \<open>start\<close> of the current action.
  \<open>handleNextState\<close> is run on the list of these deliveries; each visit of a node that waits
  takes the next one. The result is what the visits did, in order, and how the run ended:
  the flag \<open>stopped\<close> was set (\<open>Halted\<close>), an end node was reached (\<open>Ended\<close>), the node was
  \<open>undefined\<close> so that reading its name threw a TypeError (\<open>Crashed\<close>), or the deliveries
  ran out (\<open>Waiting\<close>). Starting the action of \<open>quit\<close> runs \<open>die\<close>, which sets \<open>stopped\<close>.
\<close>

datatype ui_input = Selected int | KeyPressed | ActionCompleted

datatype nav_event =
    Entered string
  | Started action
  | Stopped action
  | ChoicePrompt string "string list"

datatype nav_end = Halted | Ended | Crashed | Waiting

text \<open>\<open>Object.values(xs)[index]\<close>: \<open>undefined\<close> unless the index is in range.\<close>

definition value_at :: "'a list \<Rightarrow> int \<Rightarrow> 'a option" where
  "value_at xs index = (if 0 \<le> index \<and> nat index < length xs then Some (xs ! nat index) else None)"

fun handleNextState :: "graph \<Rightarrow> bool \<Rightarrow> node_ref option \<Rightarrow> ui_input list \<Rightarrow> nav_event list \<times> nav_end" where
  "handleNextState g stopped_flag currentState ins =
     (if stopped_flag then ([], Halted)
      else case (case currentState of None \<Rightarrow> None | Some r \<Rightarrow> g r) of
        None \<Rightarrow> ([], Crashed)
      | Some n \<Rightarrow>
          (let started = (case getAction n of None \<Rightarrow> [] | Some a \<Rightarrow> [Started a]);
               finished = (case getAction n of None \<Rightarrow> [] | Some a \<Rightarrow> [Stopped a]);
               flag = (getAction n = Some DieAction)
           in if onActionComplete n \<noteq> None then
                (case ins of
                   ActionCompleted # rest \<Rightarrow>
                     (let (es, r) = handleNextState g flag (onActionComplete n) rest
                      in (Entered (node_name n) # started @ finished @ es, r))
                 | _ \<Rightarrow> (Entered (node_name n) # started, Waiting))
              else if onAnyKeypress n \<noteq> None then
                (case ins of
                   KeyPressed # rest \<Rightarrow>
                     (let (es, r) = handleNextState g flag (onAnyKeypress n) rest
                      in (Entered (node_name n) # started @ finished @ es, r))
                 | _ \<Rightarrow> (Entered (node_name n) # started, Waiting))
              else (case menu n of
                Some options \<Rightarrow>
                  (let items = map (\<lambda>r. case g r of None \<Rightarrow> [] | Some m \<Rightarrow> node_name m) options;
                       asked = Entered (node_name n) # started @ [ChoicePrompt (node_name n) items]
                   in case ins of
                        Selected index # rest \<Rightarrow>
                          (let (es, r) = handleNextState g flag (value_at options index) rest
                           in (asked @ finished @ es, r))
                      | _ \<Rightarrow> (asked, Waiting))
              | None \<Rightarrow> (Entered (node_name n) # started, Ended))))"

declare handleNextState.simps [simp del]

section \<open>Notions used in the statements\<close>

text \<open>
  The path \<open>getLogPath\<close> computes on first use, whether a process has its path already
  (\<open>cached\<close>), the file-system effects of \<open>getLogPath\<close> (none once the path is cached), the
  effect of the \<open>spawn\<close> that \<open>runCommand\<close> issues for a command, and the tree-kills the loop
  of \<open>stop\<close> issues: one for every child whose pid is truthy, in the order of \<open>children\<close>.
\<close>

definition log_file :: "MuxProcess \<Rightarrow> string" where
  "log_file P =
     path_join (path_join (rootDir (muxConfig P)) (cfg_logPath (muxConfig P)))
       (replace_spaces (toLowerCase (name P)) @ ''.log'')"

definition cached :: "MuxProcess \<Rightarrow> bool" where
  "cached P = (case logPath P of None \<Rightarrow> False | Some q \<Rightarrow> q \<noteq> [])"

definition log_setup :: "MuxProcess \<Rightarrow> effect list" where
  "log_setup P =
     (if cached P then []
      else [Mkdir (path_join (rootDir (muxConfig P)) (cfg_logPath (muxConfig P))),
            AppendFile (log_file P) [], Truncate (log_file P)])"

definition spawn_effect :: "MuxProcess \<Rightarrow> MuxCommand \<Rightarrow> world \<Rightarrow> effect" where
  "spawn_effect P c w =
     Spawn (next_pid w) ''sh''
       [''-c'', ''cd '' @ path_join (rootDir (muxConfig P)) (case dir c of None \<Rightarrow> ''./'' | Some d \<Rightarrow> d)
                @ '' && '' @ exec c]
       (spread (process_env w) (case env c of None \<Rightarrow> [] | Some e \<Rightarrow> e))"

definition kills :: "MuxProcess \<Rightarrow> effect list" where
  "kills P = map (\<lambda>child. TreeKill (pid child) SIGTERM) (filter (\<lambda>child. pid child \<noteq> 0) (children P))"

section \<open>Sample configuration\<close>

text \<open>
  Three processes: \<open>A\<close> installs and then sleeps, \<open>C\<close> only runs a command that exits with
  code 3, \<open>D\<close> has a stop command. \<open>boot\<close> is the world before the supervisor has done
  anything.
\<close>

definition procA_config :: MuxProcessConfig where
  "procA_config =
     \<lparr>cfg_name = ''A'',
      cfg_run = \<lparr>exec = ''sleep 1000'', dir = None, env = None\<rparr>,
      cfg_install = Some \<lparr>exec = ''echo installed-A'', dir = None, env = None\<rparr>,
      cfg_stop = None\<rparr>"

definition procC_config :: MuxProcessConfig where
  "procC_config =
     \<lparr>cfg_name = ''C'',
      cfg_run = \<lparr>exec = ''exit 3'', dir = None, env = None\<rparr>,
      cfg_install = None,
      cfg_stop = None\<rparr>"

definition procD_config :: MuxProcessConfig where
  "procD_config =
     \<lparr>cfg_name = ''D'',
      cfg_run = \<lparr>exec = ''compose up'', dir = None, env = None\<rparr>,
      cfg_install = None,
      cfg_stop = Some \<lparr>exec = ''compose down'', dir = None, env = None\<rparr>\<rparr>"

definition sample_config :: MuxConfig where
  "sample_config =
     \<lparr>rootDir = ''/srv'', cfg_logPath = ''logs'',
      cfg_processes = [procA_config, procC_config, procD_config]\<rparr>"

definition procA :: MuxProcess where
  "procA = MuxProcess_new sample_config procA_config"

definition procC :: MuxProcess where
  "procC = MuxProcess_new sample_config procC_config"

definition procD :: MuxProcess where
  "procD = MuxProcess_new sample_config procD_config"

definition boot :: world where
  "boot = \<lparr>files = Map.empty, next_pid = 1, streams = Map.empty, settled = Map.empty,
            process_env = [], self_pid = 4000, now = 0, logged = [], trace = []\<rparr>"

text \<open>Process \<open>D\<close> after \<open>start\<close>, and the call of \<open>stop\<close> on it.\<close>

definition startedD :: "MuxProcess \<times> world" where
  "startedD = snd (start (procD, boot))"

definition stoppingD :: "task \<times> (MuxProcess \<times> world)" where
  "stoppingD = stop startedD"

text \<open>
  Process \<open>A\<close> after \<open>install\<close>, the install command having exited with code 0; process \<open>C\<close>
  after \<open>start\<close>, its run command having exited with code 3, and the call of \<open>stop\<close> on it
  run to its end.
\<close>

definition installedA :: "MuxProcess \<times> world" where
  "installedA = (fst (snd (install (procA, boot))), onExit 1 0 None (snd (snd (install (procA, boot)))))"

definition exitedC :: "MuxProcess \<times> world" where
  "exitedC = (fst (snd (start (procC, boot))), onExit 1 3 None (snd (snd (start (procC, boot)))))"

definition stoppedC :: "task \<times> (MuxProcess \<times> world)" where
  "stoppedC = (let (t, s) = stop exitedC in advance t s)"

text \<open>
  Process \<open>A\<close> after \<open>start\<close>; a supervisor with this one process; \<open>die\<close> called on it; and
  \<open>die\<close> resumed after the run command has exited.
\<close>

definition startedA :: "MuxProcess \<times> world" where
  "startedA = snd (start (procA, boot))"

definition uiA :: "MuxUI \<times> world" where
  "uiA = (\<lparr>processes = [fst startedA], stopped = False\<rparr>, snd startedA)"

definition dyingA :: "die_task \<times> (MuxUI \<times> world)" where
  "dyingA = die uiA"

definition deadA :: "die_task \<times> (MuxUI \<times> world)" where
  "deadA = die_advance (fst dyingA) (fst (snd dyingA), onExit 1 0 None (snd (snd dyingA)))"

text \<open>
  \<open>grown P P'\<close>: every handle \<open>P\<close> tracks is still tracked by \<open>P'\<close>, at the same place. The
  state of src/src/main.ts around the supervisor of process \<open>A\<close>, before any \<open>cleanExit\<close>.
\<close>

definition grown :: "MuxProcess \<Rightarrow> MuxProcess \<Rightarrow> bool" where
  "grown P P' = prefix (children P) (children P')"

definition mainA :: Main where
  "mainA = \<lparr>cleanExit_stopped = False, ui = fst uiA, os = snd uiA\<rparr>"

section \<open>The earlier revision of MuxProcess (second part of src/unnamed/part_001)\<close>

text \<open>
  After the class \<open>MuxUI\<close>, src/unnamed/part_001 holds an earlier revision of the class
  \<open>MuxProcess\<close>: it spawns with \<open>child_process\<close> and imports \<open>./mux.types\<close>, whereas \<open>MuxUI\<close> and
  main.ts import \<open>./process\<close> and \<open>./config\<close>, the class and interfaces modelled above. Its
  \<open>stop\<close> differs from the present one in two ways that the statements about \<open>stop\<close> touch:
  it throws when the process was not started, and it truncates the log file at its end.
  Its \<open>runCommand\<close> writes the log with \<open>fs.appendFileSync\<close> in the handlers of the child and
  passes the environment inside the command line; only what \<open>stop\<close> calls is modelled.
\<close>

datatype legacy_frame = LegacyAfterStopCommand | LegacyAfterStartPromise

datatype legacy_task = LegacyReturned | LegacyThrew string | LegacyAwaiting promise legacy_frame

definition legacy_runCommand :: "MuxCommand option \<Rightarrow> MuxProcess \<times> world \<Rightarrow> promise \<times> (MuxProcess \<times> world)" where
  "legacy_runCommand command = (\<lambda>(P, w).
     case command of
       None \<Rightarrow> (Resolved 0, (P, w))
     | Some c \<Rightarrow>
         let dir' = (case dir c of None \<Rightarrow> ''./'' | Some d \<Rightarrow> d);
             env' = (case env c of None \<Rightarrow> [] | Some e \<Rightarrow> e);
             cwd = path_join (rootDir (muxConfig P)) dir';
             (logFile, (P1, w1)) = getLogPath (P, w);
             envVars = join '' '' (map (\<lambda>(k, v). k @ ''='' @ [CHR 0x27] @ v @ [CHR 0x27]) env');
             bin = ''sh'';
             args = [''-c'', [CHR 0x27] @ ''cd '' @ cwd @ '' && '' @ envVars @ '' '' @ exec c @ [CHR 0x27]];
             w2 = logger INFO (name P1 @ '': Executing '' @ [CHR 0x22] @ bin @ '' '' @ join '' '' args @ [CHR 0x22]) w1;
             (child, w3) = spawn bin args (process_env w2) w2;
             w4 = w3\<lparr>streams := (streams w3)(pid child \<mapsto> (logFile, name P1)),
                     settled := (settled w3)(pid child := None)\<rparr>
         in (Exit (pid child), (P1\<lparr>children := children P1 @ [child]\<rparr>, w4)))"

definition legacy_stop :: "MuxProcess \<times> world \<Rightarrow> legacy_task \<times> (MuxProcess \<times> world)" where
  "legacy_stop = (\<lambda>(P, w).
     case startPromise P of
       None \<Rightarrow> (LegacyThrew ''Not started yet'', (P, w))
     | Some sp \<Rightarrow>
         (let w1 = logger INFO (name P @ '': cleaning up'') w;
              (p, s) = legacy_runCommand (cfg_stop (processConfig P)) (P, w1)
          in (LegacyAwaiting p LegacyAfterStopCommand, s)))"

fun legacy_resume :: "legacy_frame \<Rightarrow> MuxProcess \<times> world \<Rightarrow> legacy_task \<times> (MuxProcess \<times> world)" where
  "legacy_resume LegacyAfterStopCommand (P, w) =
     (let w1 = logger INFO (name P @ '': shutting down'') w;
          w2 = fold (\<lambda>child w'. if pid child \<noteq> 0 then treeKill (pid child) SIGTERM w' else w')
                 (children P) w1
      in (LegacyAwaiting (case startPromise P of None \<Rightarrow> Resolved 0 | Some sp \<Rightarrow> sp)
            LegacyAfterStartPromise, (P, w2)))"
| "legacy_resume LegacyAfterStartPromise (P, w) =
     (let (p, (P1, w1)) = getLogPath (P, w)
      in (LegacyReturned, (P1, truncateSync p w1)))"

section \<open>Basic facts: the world\<close>

lemmas sample_defs =
  procA_def procC_def procD_def procA_config_def procC_config_def procD_config_def
  sample_config_def boot_def MuxProcess_new_def

lemma logger_fields [simp]:
  "files (logger l m w) = files w" "next_pid (logger l m w) = next_pid w"
  "streams (logger l m w) = streams w" "settled (logger l m w) = settled w"
  "process_env (logger l m w) = process_env w" "self_pid (logger l m w) = self_pid w"
  "now (logger l m w) = now w" "trace (logger l m w) = trace w"
  "logged (logger l m w) = logged w @ [(l, m)]"
  by (simp_all add: logger_def)

lemma emit_fields [simp]:
  "files (emit e w) = files w" "next_pid (emit e w) = next_pid w"
  "streams (emit e w) = streams w" "settled (emit e w) = settled w"
  "process_env (emit e w) = process_env w" "self_pid (emit e w) = self_pid w"
  "now (emit e w) = now w" "logged (emit e w) = logged w"
  "trace (emit e w) = trace w @ [e]"
  by (simp_all add: emit_def)

lemma truncateSync_fields [simp]:
  "files (truncateSync p w) = (files w)(p \<mapsto> [])" "next_pid (truncateSync p w) = next_pid w"
  "streams (truncateSync p w) = streams w" "settled (truncateSync p w) = settled w"
  "process_env (truncateSync p w) = process_env w" "self_pid (truncateSync p w) = self_pid w"
  "now (truncateSync p w) = now w" "logged (truncateSync p w) = logged w"
  "trace (truncateSync p w) = trace w @ [Truncate p]"
  by (simp_all add: truncateSync_def)

lemma appendFileSync_fields [simp]:
  "files (appendFileSync p d w) = (files w)(p \<mapsto> (case files w p of None \<Rightarrow> d | Some c \<Rightarrow> c @ d))"
  "next_pid (appendFileSync p d w) = next_pid w"
  "streams (appendFileSync p d w) = streams w" "settled (appendFileSync p d w) = settled w"
  "process_env (appendFileSync p d w) = process_env w" "self_pid (appendFileSync p d w) = self_pid w"
  "now (appendFileSync p d w) = now w" "logged (appendFileSync p d w) = logged w"
  "trace (appendFileSync p d w) = trace w @ [AppendFile p d]"
  by (simp_all add: appendFileSync_def)

lemma mkdirSync_fields [simp]:
  "files (mkdirSync p w) = files w" "next_pid (mkdirSync p w) = next_pid w"
  "streams (mkdirSync p w) = streams w" "settled (mkdirSync p w) = settled w"
  "process_env (mkdirSync p w) = process_env w" "self_pid (mkdirSync p w) = self_pid w"
  "now (mkdirSync p w) = now w" "logged (mkdirSync p w) = logged w"
  "trace (mkdirSync p w) = trace w @ [Mkdir p]"
  by (simp_all add: mkdirSync_def)

lemma treeKill_fields [simp]:
  "files (treeKill p sg w) = files w" "next_pid (treeKill p sg w) = next_pid w"
  "streams (treeKill p sg w) = streams w" "settled (treeKill p sg w) = settled w"
  "process_env (treeKill p sg w) = process_env w" "self_pid (treeKill p sg w) = self_pid w"
  "now (treeKill p sg w) = now w" "logged (treeKill p sg w) = logged w"
  "trace (treeKill p sg w) = trace w @ [TreeKill p sg]"
  by (simp_all add: treeKill_def)

lemma path_join_nonempty [simp]: "path_join a b \<noteq> []"
  by (simp add: path_join_def)

lemma getLogPath_cached:
  "cached P \<Longrightarrow> getLogPath (P, w) = (the (logPath P), (P, w))"
  by (auto simp: cached_def getLogPath_def Let_def split: option.splits)

lemma getLogPath_fresh:
  "\<not> cached P \<Longrightarrow> getLogPath (P, w) =
     (log_file P, (P\<lparr>logPath := Some (log_file P)\<rparr>,
        truncateSync (log_file P) (appendFileSync (log_file P) []
          (mkdirSync (path_join (rootDir (muxConfig P)) (cfg_logPath (muxConfig P))) w))))"
  by (auto simp: cached_def getLogPath_def log_file_def Let_def split: option.splits)

lemma getLogPath_path: "fst (getLogPath (P, w)) = (if cached P then the (logPath P) else log_file P)"
  by (simp add: getLogPath_cached getLogPath_fresh)

lemma getLogPath_path_indep: "fst (getLogPath (P, w)) = fst (getLogPath (P, w'))"
  by (simp add: getLogPath_path)

lemma getLogPath_path_nonempty [simp]: "fst (getLogPath (P, w)) \<noteq> []"
  by (auto simp: getLogPath_path cached_def log_file_def split: option.splits)

lemma getLogPath_process:
  "fst (snd (getLogPath (P, w))) = P\<lparr>logPath := Some (fst (getLogPath (P, w)))\<rparr>"
  by (cases "cached P") (auto simp: getLogPath_cached getLogPath_fresh cached_def split: option.splits)

lemma getLogPath_cached_after [simp]: "cached (fst (snd (getLogPath (P, w))))"
  by (subst getLogPath_process) (simp add: cached_def)

lemma getLogPath_upd [simp]:
  "q \<noteq> [] \<Longrightarrow> getLogPath (P\<lparr>logPath := Some q\<rparr>, w) = (q, (P\<lparr>logPath := Some q\<rparr>, w))"
  by (simp add: getLogPath_def Let_def)

lemma getLogPath_trace: "trace (snd (snd (getLogPath (P, w)))) = trace w @ log_setup P"
  by (cases "cached P") (simp_all add: getLogPath_cached getLogPath_fresh log_setup_def)

lemma getLogPath_world_fields [simp]:
  "next_pid (snd (snd (getLogPath (P, w)))) = next_pid w"
  "streams (snd (snd (getLogPath (P, w)))) = streams w"
  "settled (snd (snd (getLogPath (P, w)))) = settled w"
  "process_env (snd (snd (getLogPath (P, w)))) = process_env w"
  "self_pid (snd (snd (getLogPath (P, w)))) = self_pid w"
  "now (snd (snd (getLogPath (P, w)))) = now w"
  "logged (snd (snd (getLogPath (P, w)))) = logged w"
  by (cases "cached P"; simp add: getLogPath_cached getLogPath_fresh)+

lemma getLogPath_files:
  "files (snd (snd (getLogPath (P, w)))) =
     (if cached P then files w else (files w)(log_file P \<mapsto> []))"
  by (simp add: getLogPath_cached getLogPath_fresh)

lemma runCommand_None [simp]:
  "runCommand None (P, w) = (Resolved 0, (P, logger WARN ''No command passed. Exiting with code 0'' w))"
  by (simp add: runCommand_def)

lemma runCommand_promise [simp]: "fst (runCommand (Some c) (P, w)) = Exit (next_pid w)"
  by (simp add: runCommand_def spawn_def Let_def split_def)

lemma runCommand_process:
  "fst (snd (runCommand (Some c) (P, w))) =
     P\<lparr>children := children P @ [\<lparr>pid = next_pid w\<rparr>], logPath := Some (fst (getLogPath (P, w)))\<rparr>"
  by (simp add: runCommand_def spawn_def Let_def split_def getLogPath_process getLogPath_path)

lemma runCommand_trace:
  "trace (snd (snd (runCommand (Some c) (P, w)))) = trace w @ spawn_effect P c w # log_setup P"
  by (simp add: runCommand_def spawn_def Let_def split_def getLogPath_trace spawn_effect_def)

lemma runCommand_files:
  "files (snd (snd (runCommand (Some c) (P, w)))) =
     (if cached P then files w else (files w)(log_file P \<mapsto> []))"
  by (simp add: runCommand_def spawn_def Let_def split_def getLogPath_files)

lemma runCommand_world_fields [simp]:
  "next_pid (snd (snd (runCommand (Some c) (P, w)))) = Suc (next_pid w)"
  "streams (snd (snd (runCommand (Some c) (P, w)))) =
     (streams w)(next_pid w \<mapsto> (fst (getLogPath (P, w)), name P))"
  "settled (snd (snd (runCommand (Some c) (P, w)))) = (settled w)(next_pid w := None)"
  "process_env (snd (snd (runCommand (Some c) (P, w)))) = process_env w"
  "self_pid (snd (snd (runCommand (Some c) (P, w)))) = self_pid w"
  "now (snd (snd (runCommand (Some c) (P, w)))) = now w"
  by (simp_all add: runCommand_def spawn_def Let_def split_def getLogPath_path)

lemma stream_write_fields [simp]:
  "next_pid (stream_write owner p d err w) = next_pid w"
  "streams (stream_write owner p d err w) = streams w"
  "settled (stream_write owner p d err w) = settled w"
  "trace (stream_write owner p d err w) = trace w"
  by (simp_all add: stream_write_def split: option.splits)

lemma stream_write_ok [simp]:
  "files (stream_write owner p d None w) = (files w)(p \<mapsto> (case files w p of None \<Rightarrow> d | Some c \<Rightarrow> c @ d))"
  "logged (stream_write owner p d None w) = logged w"
  by (simp_all add: stream_write_def)

lemma stream_write_failed [simp]:
  "files (stream_write owner p d (Some e) w) = files w"
  "logged (stream_write owner p d (Some e) w) =
     logged w @ [(ERROR, owner @ '': Error while writing to log file '' @ e)]"
  by (simp_all add: stream_write_def)

lemma onExit_settles:
  assumes "streams w c = Some (p, owner)" "settled w c = None"
  shows "settled (onExit c n err w) c = Some n"
  using assms by (simp add: onExit_def Let_def)

lemma onExit_files_ok:
  assumes "streams w c = Some (p, owner)"
  shows "files (onExit c n None w) p =
           Some ((case files w p of None \<Rightarrow> [] | Some old \<Rightarrow> old) @ ''exited with code '' @ show_int n)"
  using assms by (simp add: onExit_def Let_def split: option.splits)

lemma onExit_failed:
  assumes "streams w c = Some (p, owner)"
  shows "files (onExit c n (Some e) w) = files w"
    and "logged (onExit c n (Some e) w) =
           logged w @ [(ERROR, owner @ '': Error while writing to log file '' @ e)]"
  using assms by (simp_all add: onExit_def Let_def)


lemma cached_path [simp]: "cached P \<Longrightarrow> P\<lparr>logPath := Some (the (logPath P))\<rparr> = P"
  by (cases "logPath P") (simp_all add: cached_def)

lemma cached_upd [simp]: "cached (P\<lparr>logPath := Some (fst (getLogPath (P, w)))\<rparr>)"
  by (simp add: cached_def)

lemma install_unfold:
  "install (P, w) =
     (let p = fst (getLogPath (P, w));
          P1 = P\<lparr>logPath := Some p\<rparr>;
          w4 = truncateSync p
                 (logger DEBUG (name P @ '': truncating log file at '' @ p) (snd (snd (getLogPath (P, w)))))
      in case cfg_install (processConfig P) of
           None \<Rightarrow> (Returned (Num 0), (P1, w4))
         | Some c \<Rightarrow>
             (Awaiting (Exit (next_pid w)) AfterInstall,
              snd (runCommand (Some c) (P1, logger INFO (name P @ '': installing'') w4))))"
proof -
  obtain p P1 w1 where g: "getLogPath (P, w) = (p, (P1, w1))"
    by (metis prod_cases3)
  have P1: "P1 = P\<lparr>logPath := Some p\<rparr>"
    using getLogPath_process [of P w] by (simp add: g)
  have c: "cached P1" using getLogPath_cached_after [of P w] by (simp add: g)
  have l: "logPath P1 = Some p" by (simp add: P1)
  have again: "\<And>w'. getLogPath (P1, w') = (p, (P1, w'))"
    using c l by (simp add: getLogPath_cached)
  have n: "next_pid w1 = next_pid w"
    using getLogPath_world_fields(1) [of P w] by (simp add: g)
  show ?thesis
    by (simp add: install_def g again Let_def split_def P1 [symmetric] n
          split: option.splits) (simp add: P1 prod_eq_iff)
qed

lemma log_setup_cached [simp]: "cached P \<Longrightarrow> log_setup P = []"
  by (simp add: log_setup_def)

section \<open>The command runner\<close>

text \<open>
  Claim C7. \<open>runCommand\<close> never throws or rejects on a non-zero exit. For every command,
  process and world, \<open>runCommand\<close> returns the pending promise of the child it spawned; when
  that child later exits with any code \<open>n\<close>, the exit handler resolves the promise with \<open>n\<close>
  (a promise of the model has no rejected state), and, the write succeeding, leaves the log
  file ending in \<open>exited with code n\<close>, that text being the last thing in the file. When
  the write fails instead, the error is reported through the logger and the promise is
  resolved with \<open>n\<close> all the same.
\<close>

theorem runCommand_resolves_with_exit_code:
  assumes "runCommand (Some c) (P, w) = (pr, (P', w'))"
    and "streams w2 (next_pid w) = streams w' (next_pid w)"
    and "settled w2 (next_pid w) = None"
  shows "pr = Exit (next_pid w) \<and> promise_state w' pr = None \<and>
         promise_state (onExit (next_pid w) n err w2) pr = Some n \<and>
         (err = None \<longrightarrow>
            files (onExit (next_pid w) n err w2) (fst (getLogPath (P, w))) =
              Some ((case files w2 (fst (getLogPath (P, w))) of None \<Rightarrow> [] | Some old \<Rightarrow> old)
                    @ ''exited with code '' @ show_int n)) \<and>
         (\<forall>e. err = Some e \<longrightarrow>
            files (onExit (next_pid w) n err w2) = files w2 \<and>
            logged (onExit (next_pid w) n err w2) =
              logged w2 @ [(ERROR, name P @ '': Error while writing to log file '' @ e)])"
proof -
  from assms(1) have pr: "pr = Exit (next_pid w)"
    by (metis fst_conv runCommand_promise)
  from assms(1) have w': "w' = snd (snd (runCommand (Some c) (P, w)))"
    by simp
  have reg: "streams w2 (next_pid w) = Some (fst (getLogPath (P, w)), name P)"
    using assms(2) by (simp add: w')
  have pending: "promise_state w' pr = None"
    by (simp add: pr promise_state_def w')
  have resolved: "promise_state (onExit (next_pid w) n err w2) pr = Some n"
    using onExit_settles [OF reg assms(3)] by (simp add: pr promise_state_def)
  have ok: "err = None \<longrightarrow>
            files (onExit (next_pid w) n err w2) (fst (getLogPath (P, w))) =
              Some ((case files w2 (fst (getLogPath (P, w))) of None \<Rightarrow> [] | Some old \<Rightarrow> old)
                    @ ''exited with code '' @ show_int n)"
    using onExit_files_ok [OF reg] by simp
  have failed: "\<forall>e. err = Some e \<longrightarrow>
            files (onExit (next_pid w) n err w2) = files w2 \<and>
            logged (onExit (next_pid w) n err w2) =
              logged w2 @ [(ERROR, name P @ '': Error while writing to log file '' @ e)]"
    using onExit_failed [OF reg] by simp
  from pr pending resolved ok failed show ?thesis by blast
qed

text \<open>The scenario of process \<open>C\<close>: the run command exits with code 3.\<close>

theorem runCommand_resolves_with_exit_code_witness:
  "fst (runCommand (Some (cfg_run procC_config)) (procC, boot)) = Exit 1 \<and>
   promise_state (snd (snd (runCommand (Some (cfg_run procC_config)) (procC, boot)))) (Exit 1) = None \<and>
   promise_state
     (onExit 1 3 None (snd (snd (runCommand (Some (cfg_run procC_config)) (procC, boot))))) (Exit 1) = Some 3 \<and>
   files (onExit 1 3 None (snd (snd (runCommand (Some (cfg_run procC_config)) (procC, boot)))))
     ''/srv/logs/c.log'' = Some ''exited with code 3''"
proof -
  let ?r = "runCommand (Some (cfg_run procC_config)) (procC, boot)"
  have run: "?r = (fst ?r, (fst (snd ?r), snd (snd ?r)))"
    by (simp only: prod.collapse)
  have pending: "settled (snd (snd ?r)) (next_pid boot) = None"
    by simp
  have n: "next_pid boot = 1"
    by (simp add: boot_def)
  have p: "fst (getLogPath (procC, boot)) = ''/srv/logs/c.log''"
    by (simp add: sample_defs getLogPath_path cached_def log_file_def path_join_def
          toLowerCase_def replace_spaces_def)
  have f: "files (snd (snd ?r)) ''/srv/logs/c.log'' = Some []"
    by (simp add: runCommand_files) (simp add: sample_defs cached_def log_file_def path_join_def
          toLowerCase_def replace_spaces_def)
  have three: "show_int 3 = ''3''"
    by (simp add: show_int_def)
  from runCommand_resolves_with_exit_code [OF run refl pending, of 3 None]
  show ?thesis
    by (simp add: n p f three)
qed

section \<open>install\<close>

text \<open>
  Claim C8. \<open>install\<close> truncates the log before it executes the install command: the
  \<open>Truncate\<close> of the log file precedes the \<open>Spawn\<close> of the command in the trace, and when
  \<open>install\<close> hands control back, the child just spawned and none of its output yet
  delivered, the log file is empty and the child's stream is open on that file. Without an
  install command \<open>install\<close> returns 0 at once and spawns nothing: no handle is added, no
  pid is taken, and the only effects are those on the log file.
\<close>

theorem install_truncates_before_command:
  assumes "install (P, w) = (t, (P', w'))"
  shows "files w' (fst (getLogPath (P, w))) = Some [] \<and>
         logPath P' = Some (fst (getLogPath (P, w))) \<and>
         (case cfg_install (processConfig P) of
            None \<Rightarrow>
              t = Returned (Num 0) \<and> children P' = children P \<and> next_pid w' = next_pid w \<and>
              trace w' = trace w @ log_setup P @ [Truncate (fst (getLogPath (P, w)))]
          | Some c \<Rightarrow>
              t = Awaiting (Exit (next_pid w)) AfterInstall \<and>
              children P' = children P @ [\<lparr>pid = next_pid w\<rparr>] \<and>
              trace w' = trace w @ log_setup P @ [Truncate (fst (getLogPath (P, w))), spawn_effect P c w] \<and>
              streams w' (next_pid w) = Some (fst (getLogPath (P, w)), name P) \<and>
              (\<forall>v s. resume AfterInstall v s = (Returned (Num v), s)))"
proof (cases "cfg_install (processConfig P)")
  case None
  with assms show ?thesis
    by (auto simp: install_unfold Let_def getLogPath_trace)
next
  case (Some c)
  let ?p = "fst (getLogPath (P, w))"
  let ?P1 = "P\<lparr>logPath := Some ?p\<rparr>"
  let ?w5 = "logger INFO (name P @ '': installing'')
               (truncateSync ?p (logger DEBUG (name P @ '': truncating log file at '' @ ?p)
                  (snd (snd (getLogPath (P, w))))))"
  have c1: "cached ?P1" by simp
  have p1: "fst (getLogPath (?P1, ?w5)) = ?p"
    by simp
  from assms Some have t: "t = Awaiting (Exit (next_pid w)) AfterInstall"
    and P': "P' = fst (snd (runCommand (Some c) (?P1, ?w5)))"
    and w': "w' = snd (snd (runCommand (Some c) (?P1, ?w5)))"
    by (simp_all add: install_unfold Let_def)
  have "files w' ?p = Some []"
    by (simp add: w' runCommand_files c1)
  moreover have "logPath P' = Some ?p"
    by (simp add: P' runCommand_process p1)
  moreover have "children P' = children P @ [\<lparr>pid = next_pid w\<rparr>]"
    by (simp add: P' runCommand_process)
  moreover have "trace w' = trace w @ log_setup P @ [Truncate ?p, spawn_effect P c w]"
    by (simp add: w' runCommand_trace c1 getLogPath_trace spawn_effect_def)
  moreover have "streams w' (next_pid w) = Some (?p, name P)"
    by (simp add: w' p1)
  ultimately show ?thesis
    using Some t by simp
qed

text \<open>Process \<open>A\<close> is installed in the world \<open>boot\<close>.\<close>

theorem install_truncates_before_command_witness:
  "files (snd (snd (install (procA, boot)))) ''/srv/logs/a.log'' = Some [] \<and>
   fst (install (procA, boot)) = Awaiting (Exit 1) AfterInstall \<and>
   trace (snd (snd (install (procA, boot)))) =
     [Mkdir ''/srv/logs'', AppendFile ''/srv/logs/a.log'' [], Truncate ''/srv/logs/a.log'',
      Truncate ''/srv/logs/a.log'',
      Spawn 1 ''sh'' [''-c'', ''cd /srv/./ && echo installed-A''] []]"
  using install_truncates_before_command [of procA boot "fst (install (procA, boot))"
      "fst (snd (install (procA, boot)))" "snd (snd (install (procA, boot)))"]
  by (simp add: procA_def procA_config_def sample_config_def boot_def MuxProcess_new_def
        getLogPath_path cached_def log_file_def log_setup_def spawn_effect_def path_join_def
        toLowerCase_def replace_spaces_def spread_def)

section \<open>Basic facts: start and stop\<close>

lemma kill_loop_trace:
  "trace (fold (\<lambda>child w'. if Q child then treeKill (pid child) SIGTERM w' else w') cs w) =
     trace w @ map (\<lambda>child. TreeKill (pid child) SIGTERM) (filter Q cs)"
  by (induction cs arbitrary: w) simp_all

lemma kill_loop_fields [simp]:
  "files (fold (\<lambda>child w'. if Q child then treeKill (pid child) SIGTERM w' else w') cs w) = files w"
  "next_pid (fold (\<lambda>child w'. if Q child then treeKill (pid child) SIGTERM w' else w') cs w) = next_pid w"
  "streams (fold (\<lambda>child w'. if Q child then treeKill (pid child) SIGTERM w' else w') cs w) = streams w"
  "settled (fold (\<lambda>child w'. if Q child then treeKill (pid child) SIGTERM w' else w') cs w) = settled w"
  by (induction cs arbitrary: w; simp)+

lemma stop_shutdown_task:
  "fst (stop_shutdown (P, w)) =
     (case startPromise P of Some p \<Rightarrow> Awaiting p AfterStartPromise | None \<Rightarrow> Returned Void)"
  by (simp add: stop_shutdown_def Let_def split: option.splits)

lemma stop_shutdown_process [simp]: "fst (snd (stop_shutdown (P, w))) = P"
  by (simp add: stop_shutdown_def Let_def split: option.splits)

lemma stop_shutdown_trace: "trace (snd (snd (stop_shutdown (P, w)))) = trace w @ kills P"
  by (simp add: stop_shutdown_def Let_def kill_loop_trace kills_def split: option.splits)

lemma stop_shutdown_fields [simp]:
  "files (snd (snd (stop_shutdown (P, w)))) = files w"
  "next_pid (snd (snd (stop_shutdown (P, w)))) = next_pid w"
  "streams (snd (snd (stop_shutdown (P, w)))) = streams w"
  "settled (snd (snd (stop_shutdown (P, w)))) = settled w"
  by (simp_all add: stop_shutdown_def Let_def split: option.splits)

lemma stop_without_command:
  "cfg_stop (processConfig P) = None \<Longrightarrow>
     stop (P, w) = stop_shutdown (P, logger INFO (name P @ '': cleaning up'') w)"
  by (simp add: stop_def)

lemma stop_with_command:
  "cfg_stop (processConfig P) = Some c \<Longrightarrow>
     stop (P, w) =
       (Awaiting (Exit (next_pid w)) AfterStopCommand,
        snd (runCommand (Some c) (P, logger INFO (name P @ '': cleaning up'') w)))"
  by (simp add: stop_def Let_def split_def)

lemma start_unfold:
  "start (P, w) =
     (Awaiting (Exit (next_pid w)) AfterStart,
      ((fst (snd (runCommand (Some (cfg_run (processConfig P)))
                   (P, logger INFO (name P @ '': starting'') w))))
         \<lparr>startPromise := Some (Exit (next_pid w))\<rparr>,
       snd (snd (runCommand (Some (cfg_run (processConfig P)))
                   (P, logger INFO (name P @ '': starting'') w)))))"
  by (simp add: start_def Let_def split_def)

lemma advance_pending:
  "promise_state (snd s) p = None \<Longrightarrow> advance (Awaiting p k) s = (Awaiting p k, s)"
  by (simp add: advance_def)

lemma advance_settled:
  "promise_state (snd s) p = Some v \<Longrightarrow> advance (Awaiting p k) s = resume k v s"
  by (simp add: advance_def)

lemma resume_stop_command [simp]: "resume AfterStopCommand v (P, w) = stop_shutdown (P, w)"
  by simp

lemma procD_log: "fst (getLogPath (procD, w)) = ''/srv/logs/d.log''"
  by (simp add: sample_defs getLogPath_path cached_def log_file_def path_join_def
        toLowerCase_def replace_spaces_def)

lemma startedD_process:
  "fst startedD = procD\<lparr>children := [\<lparr>pid = 1\<rparr>], logPath := Some ''/srv/logs/d.log'',
                         startPromise := Some (Exit 1)\<rparr>"
  by (simp add: startedD_def start_unfold runCommand_process procD_log)
     (simp add: sample_defs)

lemma startedD_world:
  "next_pid (snd startedD) = 2"
  "trace (snd startedD) =
     [Spawn 1 ''sh'' [''-c'', ''cd /srv/./ && compose up''] [],
      Mkdir ''/srv/logs'', AppendFile ''/srv/logs/d.log'' [], Truncate ''/srv/logs/d.log'']"
  "settled (snd startedD) = Map.empty"
  by (simp_all add: startedD_def start_unfold runCommand_trace)
     (simp_all add: sample_defs spawn_effect_def log_setup_def cached_def path_join_def
        log_file_def toLowerCase_def replace_spaces_def spread_def)

section \<open>start\<close>

text \<open>
  Claim C1, as the source has it. The claim says that the promise of \<open>start\<close> resolves
  while the run command is still executing. It does not: \<open>start\<close> ends with
  \<open>await this.startPromise\<close>. With process \<open>A\<close> started and its run command not yet exited,
  the call of \<open>start\<close> is suspended on the run future and a turn of the event loop leaves
  it so.
\<close>

theorem start_awaits_run_counterexample:
  "startPromise (fst (snd (start (procA, boot)))) = Some (Exit 1) \<and>
   promise_state (snd (snd (start (procA, boot)))) (Exit 1) = None \<and>
   fst (start (procA, boot)) = Awaiting (Exit 1) AfterStart \<and>
   fst (advance (fst (start (procA, boot))) (snd (start (procA, boot)))) \<noteq> Returned Void"
  by (simp add: start_unfold advance_def promise_state_def boot_def)

text \<open>
  Claim C1, amended. \<open>start\<close> stores the promise of \<open>runCommand\<close> for the run command in
  \<open>startPromise\<close> before it suspends, so control is back at the caller while the run command
  is executing (its promise pending) and the handle of the child is tracked; a later \<open>stop\<close>
  awaits exactly this promise. The promise \<open>start\<close> itself returns stays pending as long as
  the run future is pending, and is fulfilled once the run future is settled.
\<close>

theorem start_captures_run_future:
  assumes "start (P, w) = (t, (P', w'))"
  shows "t = Awaiting (Exit (next_pid w)) AfterStart \<and>
         startPromise P' = Some (fst (runCommand (Some (cfg_run (processConfig P)))
                                   (P, logger INFO (name P @ '': starting'') w))) \<and>
         startPromise P' = Some (Exit (next_pid w)) \<and>
         children P' = children P @ [\<lparr>pid = next_pid w\<rparr>] \<and>
         promise_state w' (Exit (next_pid w)) = None \<and>
         (\<forall>s. promise_state (snd s) (Exit (next_pid w)) = None \<longrightarrow> advance t s = (t, s)) \<and>
         (\<forall>s v. promise_state (snd s) (Exit (next_pid w)) = Some v \<longrightarrow> advance t s = (Returned Void, s)) \<and>
         (\<forall>w2. fst (stop_shutdown (P', w2)) = Awaiting (Exit (next_pid w)) AfterStartPromise)"
proof -
  from assms have t: "t = Awaiting (Exit (next_pid w)) AfterStart"
    and P': "P' = (fst (snd (runCommand (Some (cfg_run (processConfig P)))
                   (P, logger INFO (name P @ '': starting'') w))))
                  \<lparr>startPromise := Some (Exit (next_pid w))\<rparr>"
    and w': "w' = snd (snd (runCommand (Some (cfg_run (processConfig P)))
                   (P, logger INFO (name P @ '': starting'') w)))"
    by (simp_all add: start_unfold)
  have "startPromise P' = Some (Exit (next_pid w))"
    by (simp add: P')
  moreover have "children P' = children P @ [\<lparr>pid = next_pid w\<rparr>]"
    by (simp add: P' runCommand_process)
  moreover have "promise_state w' (Exit (next_pid w)) = None"
    by (simp add: w' promise_state_def)
  moreover have "\<forall>s. promise_state (snd s) (Exit (next_pid w)) = None \<longrightarrow> advance t s = (t, s)"
    by (simp add: t advance_pending)
  moreover have "\<forall>s v. promise_state (snd s) (Exit (next_pid w)) = Some v \<longrightarrow>
      advance t s = (Returned Void, s)"
    by (simp add: t advance_settled)
  moreover have "\<forall>w2. fst (stop_shutdown (P', w2)) = Awaiting (Exit (next_pid w)) AfterStartPromise"
    by (simp add: stop_shutdown_task P')
  ultimately show ?thesis
    using t by simp
qed

text \<open>Process \<open>A\<close> is started; its run command later exits with code 0.\<close>

theorem start_captures_run_future_witness:
  "fst (start (procA, boot)) = Awaiting (Exit 1) AfterStart \<and>
   startPromise (fst (snd (start (procA, boot)))) = Some (Exit 1) \<and>
   children (fst (snd (start (procA, boot)))) = [\<lparr>pid = 1\<rparr>] \<and>
   advance (fst (start (procA, boot))) (fst (snd (start (procA, boot))), onExit 1 0 None (snd (snd (start (procA, boot)))))
     = (Returned Void, (fst (snd (start (procA, boot))), onExit 1 0 None (snd (snd (start (procA, boot))))))"
proof -
  let ?r = "start (procA, boot)"
  have run: "?r = (fst ?r, (fst (snd ?r), snd (snd ?r)))"
    by (simp only: prod.collapse)
  have n: "next_pid boot = 1"
    by (simp add: boot_def)
  have c: "children procA = []"
    by (simp add: sample_defs)
  have reg: "streams (snd (snd ?r)) 1 = Some (fst (getLogPath (procA, boot)), ''A'')"
    by (simp add: start_unfold n getLogPath_path) (simp add: sample_defs cached_def)
  have pend: "settled (snd (snd ?r)) 1 = None"
    by (simp add: start_unfold n)
  have ex: "promise_state (onExit 1 0 None (snd (snd ?r))) (Exit 1) = Some 0"
    using onExit_settles [OF reg pend] by (simp add: promise_state_def)
  from start_captures_run_future [OF run] ex
  show ?thesis
    by (auto simp: n c)
qed

section \<open>stop\<close>

text \<open>
  Claim C2. On a process whose \<open>start\<close> has been called (\<open>startPromise\<close> holds the run
  future \<open>rp\<close>), \<open>stop\<close> proceeds in this order. With a stop command, it spawns the command
  (no tree-kill yet) and suspends on the command's promise, which is pending; it stays
  suspended until that promise is settled. What it does next, and at once when there is no
  stop command, is to issue \<open>treeKill(pid, SIGTERM)\<close> for every tracked child with a truthy
  pid (all of them, when every pid is positive, as the pids of spawned children are), in the
  order of \<open>children\<close>, and then to suspend on the run future \<open>rp\<close>. It returns only when \<open>rp\<close>
  is settled.
\<close>

theorem stop_order:
  assumes "startPromise P = Some rp"
  shows "(case cfg_stop (processConfig P) of
            Some c \<Rightarrow>
              fst (stop (P, w)) = Awaiting (Exit (next_pid w)) AfterStopCommand \<and>
              trace (snd (snd (stop (P, w)))) = trace w @ spawn_effect P c w # log_setup P \<and>
              children (fst (snd (stop (P, w)))) = children P @ [\<lparr>pid = next_pid w\<rparr>] \<and>
              startPromise (fst (snd (stop (P, w)))) = Some rp \<and>
              promise_state (snd (snd (stop (P, w)))) (Exit (next_pid w)) = None
          | None \<Rightarrow>
              fst (stop (P, w)) = Awaiting rp AfterStartPromise \<and>
              trace (snd (snd (stop (P, w)))) = trace w @ kills P \<and>
              fst (snd (stop (P, w))) = P) \<and>
         (\<forall>p s. promise_state (snd s) p = None \<longrightarrow>
              advance (Awaiting p AfterStopCommand) s = (Awaiting p AfterStopCommand, s)) \<and>
         (\<forall>v P2 w2. startPromise P2 = Some rp \<longrightarrow>
              fst (resume AfterStopCommand v (P2, w2)) = Awaiting rp AfterStartPromise \<and>
              fst (snd (resume AfterStopCommand v (P2, w2))) = P2 \<and>
              trace (snd (snd (resume AfterStopCommand v (P2, w2)))) = trace w2 @ kills P2) \<and>
         (\<forall>s. promise_state (snd s) rp = None \<longrightarrow>
              advance (Awaiting rp AfterStartPromise) s = (Awaiting rp AfterStartPromise, s)) \<and>
         (\<forall>s v. promise_state (snd s) rp = Some v \<longrightarrow>
              advance (Awaiting rp AfterStartPromise) s = (Returned Void, s)) \<and>
         (\<forall>P2. (\<forall>child \<in> set (children P2). pid child \<noteq> 0) \<longrightarrow>
              kills P2 = map (\<lambda>child. TreeKill (pid child) SIGTERM) (children P2))"
proof -
  have first: "case cfg_stop (processConfig P) of
            Some c \<Rightarrow>
              fst (stop (P, w)) = Awaiting (Exit (next_pid w)) AfterStopCommand \<and>
              trace (snd (snd (stop (P, w)))) = trace w @ spawn_effect P c w # log_setup P \<and>
              children (fst (snd (stop (P, w)))) = children P @ [\<lparr>pid = next_pid w\<rparr>] \<and>
              startPromise (fst (snd (stop (P, w)))) = Some rp \<and>
              promise_state (snd (snd (stop (P, w)))) (Exit (next_pid w)) = None
          | None \<Rightarrow>
              fst (stop (P, w)) = Awaiting rp AfterStartPromise \<and>
              trace (snd (snd (stop (P, w)))) = trace w @ kills P \<and>
              fst (snd (stop (P, w))) = P"
  proof (cases "cfg_stop (processConfig P)")
    case None
    then show ?thesis
      using assms by (simp add: stop_without_command stop_shutdown_task stop_shutdown_trace)
  next
    case (Some c)
    then show ?thesis
      using assms
      by (simp add: stop_with_command runCommand_trace runCommand_process spawn_effect_def
            promise_state_def)
  qed
  have waits: "\<forall>p s. promise_state (snd s) p = None \<longrightarrow>
              advance (Awaiting p AfterStopCommand) s = (Awaiting p AfterStopCommand, s)"
    by (simp add: advance_pending)
  have second: "\<forall>v P2 w2. startPromise P2 = Some rp \<longrightarrow>
              fst (resume AfterStopCommand v (P2, w2)) = Awaiting rp AfterStartPromise \<and>
              fst (snd (resume AfterStopCommand v (P2, w2))) = P2 \<and>
              trace (snd (snd (resume AfterStopCommand v (P2, w2)))) = trace w2 @ kills P2"
    by (simp add: stop_shutdown_task stop_shutdown_trace)
  have third: "\<forall>s. promise_state (snd s) rp = None \<longrightarrow>
              advance (Awaiting rp AfterStartPromise) s = (Awaiting rp AfterStartPromise, s)"
    by (simp add: advance_pending)
  have fourth: "\<forall>s v. promise_state (snd s) rp = Some v \<longrightarrow>
              advance (Awaiting rp AfterStartPromise) s = (Returned Void, s)"
    by (simp add: advance_settled)
  have every: "\<forall>P2. (\<forall>child \<in> set (children P2). pid child \<noteq> 0) \<longrightarrow>
              kills P2 = map (\<lambda>child. TreeKill (pid child) SIGTERM) (children P2)"
    by (simp add: kills_def)
  from first waits second third fourth every show ?thesis
    by blast
qed

text \<open>
  Process \<open>D\<close>, started (child 1), is stopped: the stop command is child 2; when it has
  exited, both children are tree-killed and \<open>stop\<close> waits for the run future of child 1.
\<close>

theorem stop_order_witness:
  "fst stoppingD = Awaiting (Exit 2) AfterStopCommand \<and>
   trace (snd (snd stoppingD)) =
     [Spawn 1 ''sh'' [''-c'', ''cd /srv/./ && compose up''] [],
      Mkdir ''/srv/logs'', AppendFile ''/srv/logs/d.log'' [], Truncate ''/srv/logs/d.log'',
      Spawn 2 ''sh'' [''-c'', ''cd /srv/./ && compose down''] []] \<and>
   children (fst (snd stoppingD)) = [\<lparr>pid = 1\<rparr>, \<lparr>pid = 2\<rparr>] \<and>
   trace (snd (snd (resume AfterStopCommand 0 (fst (snd stoppingD), snd (snd stoppingD))))) =
     trace (snd (snd stoppingD)) @ [TreeKill 1 SIGTERM, TreeKill 2 SIGTERM] \<and>
   fst (resume AfterStopCommand 0 (fst (snd stoppingD), snd (snd stoppingD))) =
     Awaiting (Exit 1) AfterStartPromise"
proof -
  have sp: "startPromise (fst startedD) = Some (Exit 1)"
    by (simp add: startedD_process)
  have cfg: "cfg_stop (processConfig (fst startedD)) = Some \<lparr>exec = ''compose down'', dir = None, env = None\<rparr>"
    by (simp add: startedD_process) (simp add: sample_defs)
  have ch: "children (fst startedD) = [\<lparr>pid = 1\<rparr>]"
    by (simp add: startedD_process)
  have quiet: "log_setup (fst startedD) = []"
    by (simp add: startedD_process log_setup_def cached_def)
  have eff: "spawn_effect (fst startedD) \<lparr>exec = ''compose down'', dir = None, env = None\<rparr> (snd startedD)
      = Spawn 2 ''sh'' [''-c'', ''cd /srv/./ && compose down''] []"
    by (simp add: spawn_effect_def startedD_world startedD_process)
       (simp add: sample_defs path_join_def spread_def startedD_def start_unfold)
  note a = stop_order [OF sp, of "snd startedD"]
  have b: "kills (fst (snd stoppingD)) = [TreeKill 1 SIGTERM, TreeKill 2 SIGTERM]"
    using a by (simp add: cfg stoppingD_def ch startedD_world kills_def)
  have sp2: "startPromise (fst (snd stoppingD)) = Some (Exit 1)"
    using a by (simp add: cfg stoppingD_def)
  have c: "fst (resume AfterStopCommand 0 (fst (snd stoppingD), snd (snd stoppingD))) =
             Awaiting (Exit 1) AfterStartPromise \<and>
           trace (snd (snd (resume AfterStopCommand 0 (fst (snd stoppingD), snd (snd stoppingD))))) =
             trace (snd (snd stoppingD)) @ kills (fst (snd stoppingD))"
    using a sp2 by blast
  from a b c show ?thesis
    by (simp add: cfg stoppingD_def ch startedD_world quiet eff)
qed

section \<open>Basic facts: the sample processes\<close>

lemma procA_log: "fst (getLogPath (procA, w)) = ''/srv/logs/a.log''"
  by (simp add: sample_defs getLogPath_path cached_def log_file_def path_join_def
        toLowerCase_def replace_spaces_def)

lemma installedA_process:
  "fst installedA = procA\<lparr>children := [\<lparr>pid = 1\<rparr>], logPath := Some ''/srv/logs/a.log''\<rparr>"
proof -
  have ci: "cfg_install (processConfig procA) = Some \<lparr>exec = ''echo installed-A'', dir = None, env = None\<rparr>"
    by (simp add: sample_defs)
  have n: "next_pid boot = 1" "children procA = []"
    by (simp_all add: sample_defs)
  show ?thesis
    by (simp add: installedA_def install_unfold Let_def ci runCommand_process procA_log n)
qed

lemma stream_write_more_fields [simp]:
  "self_pid (stream_write owner p d err w) = self_pid w"
  "now (stream_write owner p d err w) = now w"
  "process_env (stream_write owner p d err w) = process_env w"
  by (simp_all add: stream_write_def split: option.splits)

lemma onExit_fields [simp]:
  "next_pid (onExit c n err w) = next_pid w"
  "streams (onExit c n err w) = streams w"
  "trace (onExit c n err w) = trace w"
  "self_pid (onExit c n err w) = self_pid w"
  "now (onExit c n err w) = now w"
  "process_env (onExit c n err w) = process_env w"
  by (simp_all add: onExit_def Let_def split: option.splits prod.splits)

lemma kill_loop_more_fields [simp]:
  "self_pid (fold (\<lambda>child w'. if Q child then treeKill (pid child) SIGTERM w' else w') cs w) = self_pid w"
  "now (fold (\<lambda>child w'. if Q child then treeKill (pid child) SIGTERM w' else w') cs w) = now w"
  "process_env (fold (\<lambda>child w'. if Q child then treeKill (pid child) SIGTERM w' else w') cs w) = process_env w"
  "logged (fold (\<lambda>child w'. if Q child then treeKill (pid child) SIGTERM w' else w') cs w) = logged w"
  by (induction cs arbitrary: w; simp)+

lemma stop_shutdown_more_fields [simp]:
  "self_pid (snd (snd (stop_shutdown (P, w)))) = self_pid w"
  "now (snd (snd (stop_shutdown (P, w)))) = now w"
  "process_env (snd (snd (stop_shutdown (P, w)))) = process_env w"
  "logged (snd (snd (stop_shutdown (P, w)))) = logged w @ [(INFO, name P @ '': shutting down'')]"
  by (simp_all add: stop_shutdown_def Let_def split: option.splits)

lemma procC_log: "fst (getLogPath (procC, w)) = ''/srv/logs/c.log''"
  by (simp add: sample_defs getLogPath_path cached_def log_file_def path_join_def
        toLowerCase_def replace_spaces_def)

lemma exitedC_process:
  "fst exitedC = procC\<lparr>children := [\<lparr>pid = 1\<rparr>], logPath := Some ''/srv/logs/c.log'',
                        startPromise := Some (Exit 1)\<rparr>"
  by (simp add: exitedC_def start_unfold runCommand_process procC_log)
     (simp add: sample_defs)

lemma exitedC_world:
  "settled (snd exitedC) 1 = Some 3"
  "files (snd exitedC) ''/srv/logs/c.log'' = Some ''exited with code 3''"
proof -
  let ?w = "snd (snd (start (procC, boot)))"
  have n: "next_pid boot = 1" by (simp add: boot_def)
  have reg: "streams ?w 1 = Some (''/srv/logs/c.log'', ''C'')"
    by (simp add: start_unfold n procC_log) (simp add: sample_defs)
  have pend: "settled ?w 1 = None"
    by (simp add: start_unfold n)
  have f: "files ?w ''/srv/logs/c.log'' = Some []"
    by (simp add: start_unfold runCommand_files)
       (simp add: sample_defs cached_def log_file_def path_join_def toLowerCase_def replace_spaces_def)
  show "settled (snd exitedC) 1 = Some 3"
    using onExit_settles [OF reg pend] by (simp add: exitedC_def)
  show "files (snd exitedC) ''/srv/logs/c.log'' = Some ''exited with code 3''"
    using onExit_files_ok [OF reg, of 3] by (simp add: exitedC_def f show_int_def)
qed

lemma startedA_process:
  "fst startedA = procA\<lparr>children := [\<lparr>pid = 1\<rparr>], logPath := Some ''/srv/logs/a.log'',
                         startPromise := Some (Exit 1)\<rparr>"
  by (simp add: startedA_def start_unfold runCommand_process procA_log)
     (simp add: sample_defs)

lemma startedA_world:
  "streams (snd startedA) 1 = Some (''/srv/logs/a.log'', ''A'')"
  "settled (snd startedA) 1 = None"
  "trace (snd startedA) =
     [Spawn 1 ''sh'' [''-c'', ''cd /srv/./ && sleep 1000''] [],
      Mkdir ''/srv/logs'', AppendFile ''/srv/logs/a.log'' [], Truncate ''/srv/logs/a.log'']"
proof -
  have n: "next_pid boot = 1" by (simp add: boot_def)
  show "streams (snd startedA) 1 = Some (''/srv/logs/a.log'', ''A'')"
    by (simp add: startedA_def start_unfold n procA_log) (simp add: sample_defs)
  show "settled (snd startedA) 1 = None"
    by (simp add: startedA_def start_unfold n)
  show "trace (snd startedA) =
     [Spawn 1 ''sh'' [''-c'', ''cd /srv/./ && sleep 1000''] [],
      Mkdir ''/srv/logs'', AppendFile ''/srv/logs/a.log'' [], Truncate ''/srv/logs/a.log'']"
    by (simp add: startedA_def start_unfold runCommand_trace)
       (simp add: sample_defs spawn_effect_def log_setup_def cached_def path_join_def
          log_file_def toLowerCase_def replace_spaces_def spread_def)
qed

lemma stop_startedA:
  "stop (fst startedA, w) =
     (Awaiting (Exit 1) AfterStartPromise,
      (fst startedA, snd (snd (stop_shutdown (fst startedA, logger INFO ''A: cleaning up'' w)))))"
proof -
  have b: "cfg_stop (processConfig (fst startedA)) = None" "name (fst startedA) = ''A''"
    by (simp_all add: startedA_process) (simp_all add: sample_defs)
  have sp: "startPromise (fst startedA) = Some (Exit 1)"
    by (simp add: startedA_process)
  have "stop (fst startedA, w) =
          stop_shutdown (fst startedA, logger INFO (name (fst startedA) @ '': cleaning up'') w)"
    by (rule stop_without_command [OF b(1)])
  then show ?thesis
    by (simp add: b(2) prod_eq_iff stop_shutdown_task sp)
qed

lemma kills_startedA: "kills (fst startedA) = [TreeKill 1 SIGTERM]"
  by (simp add: kills_def startedA_process)

lemma dyingA_unfold:
  "fst dyingA = DieAwaiting 0 [Awaiting (Exit 1) AfterStartPromise]"
  "processes (fst (snd dyingA)) = [fst startedA]"
  "stopped (fst (snd dyingA))"
  "trace (snd (snd dyingA)) = trace (snd startedA) @ [TreeKill 1 SIGTERM]"
  "streams (snd (snd dyingA)) = streams (snd startedA)"
  "settled (snd (snd dyingA)) = settled (snd startedA)"
  "self_pid (snd (snd dyingA)) = 4000"
proof -
  have n: "now (snd startedA) = 0"
    by (simp add: startedA_def start_unfold) (simp add: boot_def)
  have self: "self_pid (snd startedA) = 4000"
    by (simp add: startedA_def start_unfold) (simp add: boot_def)
  show "self_pid (snd (snd dyingA)) = 4000"
    by (simp add: dyingA_def uiA_def die_def stop_startedA self)
  show "fst dyingA = DieAwaiting 0 [Awaiting (Exit 1) AfterStartPromise]"
    by (simp add: dyingA_def uiA_def die_def stop_startedA n)
  show "processes (fst (snd dyingA)) = [fst startedA]"
    by (simp add: dyingA_def uiA_def die_def stop_startedA)
  show "stopped (fst (snd dyingA))"
    by (simp add: dyingA_def uiA_def die_def stop_startedA)
  show "trace (snd (snd dyingA)) = trace (snd startedA) @ [TreeKill 1 SIGTERM]"
    by (simp add: dyingA_def uiA_def die_def stop_startedA stop_shutdown_trace kills_startedA)
  show "streams (snd (snd dyingA)) = streams (snd startedA)"
    by (simp add: dyingA_def uiA_def die_def stop_startedA)
  show "settled (snd (snd dyingA)) = settled (snd startedA)"
    by (simp add: dyingA_def uiA_def die_def stop_startedA)
qed

section \<open>stop on a process that was never started\<close>

text \<open>
  Claim C4, as the source has it. \<open>stop\<close> on a process that was never started does not
  throw, but it does signal: its loop tree-kills every child in \<open>children\<close>, and those are
  the children of every command the process has run, the install command among them.
  Process \<open>A\<close> has been installed (child 1, since exited) and never started; \<open>stop\<close> returns
  at once and has issued \<open>treeKill(1, SIGTERM)\<close>.
\<close>

theorem stop_never_started_counterexample:
  "startPromise (fst installedA) = None \<and>
   fst (stop installedA) = Returned Void \<and>
   trace (snd (snd (stop installedA))) = trace (snd installedA) @ [TreeKill 1 SIGTERM]"
proof -
  have a: "startPromise (fst installedA) = None"
    by (simp add: installedA_process) (simp add: sample_defs)
  have b: "cfg_stop (processConfig (fst installedA)) = None"
    by (simp add: installedA_process) (simp add: sample_defs)
  have c: "kills (fst installedA) = [TreeKill 1 SIGTERM]"
    by (simp add: installedA_process kills_def)
  have d: "stop installedA = stop_shutdown (fst installedA, logger INFO (name (fst installedA) @ '': cleaning up'') (snd installedA))"
    using stop_without_command [OF b, of "snd installedA"] by simp
  show ?thesis
    by (simp add: a d stop_shutdown_task stop_shutdown_trace c)
qed

text \<open>
  Claim C4, amended. On a process that was never started \<open>stop\<close> completes without throwing
  and without waiting for a run future: with no stop command it returns at once, with one it
  returns as soon as that command's promise is settled. Either way it issues a tree-kill for
  every child the process tracks at that point, so it does no signalling exactly when the
  process tracks none; with no stop command and no command run before, none is tracked.
\<close>

theorem stop_never_started:
  assumes "startPromise P = None"
  shows "(case cfg_stop (processConfig P) of
            None \<Rightarrow>
              fst (stop (P, w)) = Returned Void \<and>
              fst (snd (stop (P, w))) = P \<and>
              trace (snd (snd (stop (P, w)))) = trace w @ kills P
          | Some c \<Rightarrow>
              fst (stop (P, w)) = Awaiting (Exit (next_pid w)) AfterStopCommand \<and>
              startPromise (fst (snd (stop (P, w)))) = None \<and>
              children (fst (snd (stop (P, w)))) = children P @ [\<lparr>pid = next_pid w\<rparr>] \<and>
              trace (snd (snd (stop (P, w)))) = trace w @ spawn_effect P c w # log_setup P) \<and>
         (\<forall>v w2. resume AfterStopCommand v (P, w2) = (Returned Void, (P, snd (snd (stop_shutdown (P, w2))))) \<and>
                 trace (snd (snd (resume AfterStopCommand v (P, w2)))) = trace w2 @ kills P) \<and>
         (children P = [] \<longrightarrow> kills P = [])"
proof -
  have first: "case cfg_stop (processConfig P) of
            None \<Rightarrow>
              fst (stop (P, w)) = Returned Void \<and>
              fst (snd (stop (P, w))) = P \<and>
              trace (snd (snd (stop (P, w)))) = trace w @ kills P
          | Some c \<Rightarrow>
              fst (stop (P, w)) = Awaiting (Exit (next_pid w)) AfterStopCommand \<and>
              startPromise (fst (snd (stop (P, w)))) = None \<and>
              children (fst (snd (stop (P, w)))) = children P @ [\<lparr>pid = next_pid w\<rparr>] \<and>
              trace (snd (snd (stop (P, w)))) = trace w @ spawn_effect P c w # log_setup P"
  proof (cases "cfg_stop (processConfig P)")
    case None
    then show ?thesis
      using assms by (simp add: stop_without_command stop_shutdown_task stop_shutdown_trace)
  next
    case (Some c)
    then show ?thesis
      using assms
      by (simp add: stop_with_command runCommand_trace runCommand_process spawn_effect_def)
  qed
  have second: "\<forall>v w2. resume AfterStopCommand v (P, w2) = (Returned Void, (P, snd (snd (stop_shutdown (P, w2))))) \<and>
                 trace (snd (snd (resume AfterStopCommand v (P, w2)))) = trace w2 @ kills P"
    using assms by (simp add: stop_shutdown_trace prod_eq_iff stop_shutdown_task)
  have third: "children P = [] \<longrightarrow> kills P = []"
    by (simp add: kills_def)
  from first second third show ?thesis
    by blast
qed

text \<open>Process \<open>C\<close>, fresh from its constructor, is stopped in the world \<open>boot\<close>.\<close>

theorem stop_never_started_witness:
  "fst (stop (procC, boot)) = Returned Void \<and> trace (snd (snd (stop (procC, boot)))) = []"
proof -
  have a: "startPromise procC = None"
    by (simp add: sample_defs)
  have b: "cfg_stop (processConfig procC) = None"
    by (simp add: sample_defs)
  have c: "children procC = []"
    by (simp add: sample_defs)
  have d: "trace boot = []"
    by (simp add: boot_def)
  from stop_never_started [OF a, of boot] show ?thesis
    by (simp add: b c d)
qed

section \<open>The log file across stop\<close>

text \<open>
  Claim C6, as the source has it. \<open>stop\<close> of src/src/process.ts does not truncate the log
  file. Process \<open>C\<close> has run to its exit with code 3; after the whole of \<open>stop\<close> the log still
  holds the marker.
\<close>

theorem stop_keeps_log_counterexample:
  "fst stoppedC = Returned Void \<and>
   files (snd (snd stoppedC)) ''/srv/logs/c.log'' = Some ''exited with code 3''"
proof -
  have b: "cfg_stop (processConfig (fst exitedC)) = None"
    by (simp add: exitedC_process) (simp add: sample_defs)
  have sp: "startPromise (fst exitedC) = Some (Exit 1)"
    by (simp add: exitedC_process)
  have d: "stop exitedC = stop_shutdown (fst exitedC, logger INFO (name (fst exitedC) @ '': cleaning up'') (snd exitedC))"
    using stop_without_command [OF b, of "snd exitedC"] by simp
  have t: "fst (stop exitedC) = Awaiting (Exit 1) AfterStartPromise"
    by (simp add: d stop_shutdown_task sp)
  have st: "settled (snd (snd (stop exitedC))) 1 = Some 3"
    using exitedC_world(1) by (simp add: d)
  have fl: "files (snd (snd (stop exitedC))) = files (snd exitedC)"
    by (simp add: d)
  have adv: "advance (fst (stop exitedC)) (snd (stop exitedC)) = (Returned Void, snd (stop exitedC))"
    using st by (simp add: t advance_def promise_state_def)
  show ?thesis
    by (simp add: stoppedC_def split_def adv fl exitedC_world)
qed

text \<open>
  Claim C6, amended. Once the log path of a process is resolved (as it is after the first
  \<open>install\<close> or \<open>start\<close>), no step of \<open>stop\<close> changes any file, and neither does a following
  \<open>start\<close>: a restart appends to the log of the segment before. It is \<open>install\<close> that empties
  the log, so a rebuild (stop, install, start) begins with a clean log.
\<close>

theorem stop_keeps_log:
  assumes "cached P"
  shows "files (snd (snd (stop (P, w)))) = files w \<and>
         (\<forall>k v. files (snd (snd (resume k v (P, w)))) = files w) \<and>
         (\<forall>t. files (snd (snd (advance t (P, w)))) = files w) \<and>
         files (snd (snd (start (P, w)))) = files w \<and>
         files (snd (snd (install (P, w)))) (fst (getLogPath (P, w))) = Some []"
proof -
  have a: "files (snd (snd (stop (P, w)))) = files w"
    using assms
    by (cases "cfg_stop (processConfig P)")
       (simp_all add: stop_without_command stop_with_command runCommand_files)
  have b: "files (snd (snd (resume k v (P, w)))) = files w" for k v
    by (cases k) simp_all
  have c: "files (snd (snd (advance t (P, w)))) = files w" for t
    by (simp add: advance_def b split: task.splits option.splits)
  have d: "files (snd (snd (start (P, w)))) = files w"
    using assms by (simp add: start_unfold runCommand_files)
  have e: "files (snd (snd (install (P, w)))) (fst (getLogPath (P, w))) = Some []"
    by (cases "cfg_install (processConfig P)")
       (simp_all add: install_unfold Let_def runCommand_files)
  from a b c d e show ?thesis
    by blast
qed

text \<open>Process \<open>C\<close> after its exit: \<open>stop\<close> and \<open>start\<close> keep the marker, \<open>install\<close> removes it.\<close>

theorem stop_keeps_log_witness:
  "files (snd (snd (stop exitedC))) ''/srv/logs/c.log'' = Some ''exited with code 3'' \<and>
   files (snd (snd (start exitedC))) ''/srv/logs/c.log'' = Some ''exited with code 3'' \<and>
   files (snd (snd (install exitedC))) ''/srv/logs/c.log'' = Some []"
proof -
  have c: "cached (fst exitedC)"
    by (simp add: exitedC_process cached_def)
  have lp: "logPath (fst exitedC) = Some ''/srv/logs/c.log''"
    by (simp add: exitedC_process)
  have "fst (getLogPath (fst exitedC, snd exitedC)) = the (logPath (fst exitedC))"
    by (simp only: getLogPath_path c if_True)
  then have p: "fst (getLogPath exitedC) = ''/srv/logs/c.log''"
    by (simp add: lp)
  from stop_keeps_log [OF c, of "snd exitedC"] show ?thesis
    by (simp add: p exitedC_world)
qed

section \<open>The handles a process tracks\<close>

lemma grown_refl [simp]: "grown P P"
  by (simp add: grown_def)

lemma grown_trans: "grown P Q \<Longrightarrow> grown Q R \<Longrightarrow> grown P R"
  by (auto simp: grown_def)

lemma grown_runCommand: "grown P (fst (snd (runCommand c (P, w))))"
  by (cases c) (simp_all add: grown_def runCommand_process)

lemma grown_install: "grown P (fst (snd (install (P, w))))"
  by (cases "cfg_install (processConfig P)")
     (simp_all add: install_unfold Let_def grown_def runCommand_process)

lemma grown_start: "grown P (fst (snd (start (P, w))))"
  by (simp add: start_unfold grown_def runCommand_process)

lemma grown_stop: "grown P (fst (snd (stop (P, w))))"
  by (cases "cfg_stop (processConfig P)")
     (simp_all add: stop_without_command stop_with_command grown_def runCommand_process)

lemma grown_resume: "grown P (fst (snd (resume k v (P, w))))"
  by (cases k) simp_all

lemma grown_advance: "grown P (fst (snd (advance t (P, w))))"
  by (simp add: advance_def grown_resume split: task.splits option.splits)

lemma grown_settle: "grown P (fst (snd (settle t (P, w))))"
proof -
  obtain t1 P1 w1 where a: "advance t (P, w) = (t1, (P1, w1))"
    by (metis prod_cases3)
  have "grown P P1"
    using grown_advance [of P t w] by (simp add: a)
  moreover have "grown P1 (fst (snd (advance t1 (P1, w1))))"
    by (rule grown_advance)
  ultimately show ?thesis
    by (simp add: settle_def a grown_trans)
qed

lemma grown_stop_each: "list_all2 grown Ps (snd (fst (stop_each Ps w)))"
proof (induction Ps arbitrary: w)
  case Nil
  show ?case by simp
next
  case (Cons P Ps)
  obtain t P' w1 where a: "stop (P, w) = (t, (P', w1))"
    by (metis prod_cases3)
  have "grown P P'"
    using grown_stop [of P w] by (simp add: a)
  with Cons [of w1] show ?case
    by (simp add: a split_def Let_def)
qed

lemma grown_settle_each: "list_all2 grown Ps (snd (fst (settle_each ts Ps w)))"
proof (induction ts Ps w rule: settle_each.induct)
  case (1 t ts P Ps w)
  obtain t' P' w1 where a: "settle t (P, w) = (t', (P', w1))"
    by (metis prod_cases3)
  have "grown P P'"
    using grown_settle [of P t w] by (simp add: a)
  with 1 [of "(t', (P', w1))" t' "(P', w1)" P' w1] a show ?case
    by (simp add: split_def Let_def)
next
  case (2 Ps w)
  show ?case by (simp add: list_all2_refl)
next
  case (3 v va w)
  show ?case by simp
qed

lemma grown_die: "list_all2 grown (processes U) (processes (fst (snd (die (U, w)))))"
  using grown_stop_each [of "processes U" "logger INFO ''cleaning up...'' w"]
  by (simp add: die_def split_def Let_def)

lemma die_finish_ui [simp]: "fst (die_finish t0 (U, w)) = U"
  by (simp add: die_finish_def Let_def)

lemma grown_die_advance: "list_all2 grown (processes U) (processes (fst (snd (die_advance d (U, w)))))"
proof (cases d)
  case (DieAwaiting t0 ts)
  then show ?thesis
    using grown_settle_each [of "processes U" ts w]
    by (simp add: die_advance_def split_def Let_def)
next
  case DieReturned
  then show ?thesis
    by (simp add: die_advance_def list_all2_refl)
qed

text \<open>
  Claim C5, as the source has it. Handles are not removed once the child has terminated, and
  after \<open>die\<close> has completed they are still tracked. Process \<open>A\<close> is started (child 1),
  \<open>die\<close> is called, child 1 exits, and \<open>die\<close> runs to its end, interrupting the supervisor:
  \<open>children\<close> of \<open>A\<close> still holds the handle of child 1.
\<close>

theorem handles_remain_counterexample:
  "fst deadA = DieReturned \<and>
   map children (processes (fst (snd deadA))) = [[\<lparr>pid = 1\<rparr>]] \<and>
   trace (snd (snd deadA)) = trace (snd startedA) @ [TreeKill 1 SIGTERM, ProcessKill 4000 SIGINT]"
proof -
  let ?w = "onExit 1 0 None (snd (snd dyingA))"
  have reg: "streams (snd (snd dyingA)) 1 = Some (''/srv/logs/a.log'', ''A'')"
    using startedA_world(1) by (simp add: dyingA_unfold)
  have pend: "settled (snd (snd dyingA)) 1 = None"
    using startedA_world(2) by (simp add: dyingA_unfold)
  have fin: "promise_state ?w (Exit 1) = Some 0"
    using onExit_settles [OF reg pend, of 0 None] by (simp add: promise_state_def)
  have st: "settle (Awaiting (Exit 1) AfterStartPromise) (fst startedA, ?w)
              = (Returned Void, (fst startedA, ?w))"
    using fin by (simp add: settle_def advance_def)
  have self: "self_pid ?w = 4000"
    by (simp add: dyingA_unfold)
  have same: "(fst (snd dyingA))\<lparr>processes := [fst startedA]\<rparr> = fst (snd dyingA)"
    by (simp add: dyingA_unfold(2) [symmetric])
  have d: "deadA = (DieReturned, die_finish 0 (fst (snd dyingA), ?w))"
    using st by (simp add: deadA_def die_advance_def dyingA_unfold same)
  show ?thesis
    by (simp add: d die_finish_def Let_def dyingA_unfold startedA_process self)
qed

text \<open>
  Claim C5, amended. A handle is added when a command is spawned: \<open>runCommand\<close> with a command
  appends the handle of the child it spawned, and without a command leaves the process as it
  is. No handle is ever removed: \<open>install\<close>, \<open>start\<close>, \<open>stop\<close>, every resumption of a suspended
  call, and \<open>die\<close> from its call to its end, leave the handles tracked before in place. (The
  exit handlers act on the world only and cannot reach \<open>children\<close>.)
\<close>

theorem handles_only_added:
  "children (fst (snd (runCommand (Some c) (P, w)))) = children P @ [\<lparr>pid = next_pid w\<rparr>] \<and>
   fst (snd (runCommand None (P, w))) = P \<and>
   grown P (fst (snd (install (P, w)))) \<and>
   grown P (fst (snd (start (P, w)))) \<and>
   grown P (fst (snd (stop (P, w)))) \<and>
   grown P (fst (snd (resume k v (P, w)))) \<and>
   grown P (fst (snd (advance t (P, w)))) \<and>
   list_all2 grown (processes U) (processes (fst (snd (die (U, w))))) \<and>
   list_all2 grown (processes U) (processes (fst (snd (die_advance d (U, w)))))"
  by (simp add: runCommand_process grown_install grown_start grown_stop grown_resume
        grown_advance grown_die grown_die_advance)

section \<open>Global shutdown\<close>

lemma startedA_logged:
  "logged (snd startedA) =
     [(INFO, ''A: starting''),
      (INFO, ''A: Executing '' @ [CHR 0x22] @ ''sh -c cd /srv/./ && sleep 1000'' @ [CHR 0x22]),
      (DEBUG, ''A: Environtment variables: {}'')]"
  by (simp add: startedA_def start_unfold runCommand_def Let_def split_def spawn_def)
     (simp add: sample_defs path_join_def json_stringify_def)

lemma die_on_startedA:
  assumes "processes U = [fst startedA]"
  shows "fst (die (U, w)) = DieAwaiting (now w) [Awaiting (Exit 1) AfterStartPromise]"
    and "processes (fst (snd (die (U, w)))) = [fst startedA]"
    and "stopped (fst (snd (die (U, w))))"
    and "trace (snd (snd (die (U, w)))) = trace w @ [TreeKill 1 SIGTERM]"
    and "logged (snd (snd (die (U, w)))) =
           logged w @ [(INFO, ''cleaning up...''), (INFO, ''A: cleaning up''), (INFO, ''A: shutting down'')]"
proof -
  have n: "name (fst startedA) = ''A''"
    by (simp add: startedA_process) (simp add: sample_defs)
  show "fst (die (U, w)) = DieAwaiting (now w) [Awaiting (Exit 1) AfterStartPromise]"
    by (simp add: die_def assms stop_startedA)
  show "processes (fst (snd (die (U, w)))) = [fst startedA]"
    by (simp add: die_def assms stop_startedA)
  show "stopped (fst (snd (die (U, w))))"
    by (simp add: die_def assms stop_startedA)
  show "trace (snd (snd (die (U, w)))) = trace w @ [TreeKill 1 SIGTERM]"
    by (simp add: die_def assms stop_startedA stop_shutdown_trace kills_startedA)
  show "logged (snd (snd (die (U, w)))) =
           logged w @ [(INFO, ''cleaning up...''), (INFO, ''A: cleaning up''), (INFO, ''A: shutting down'')]"
    by (simp add: die_def assms stop_startedA n)
qed

text \<open>
  Claim C3, as the source has it. \<open>die\<close> sets \<open>stopped\<close> but never reads it: a second call,
  here made while the first is still waiting at its \<open>Promise.all\<close>, calls \<open>stop\<close> on the
  process again. Process \<open>A\<close> is told twice to clean up and child 1 is tree-killed twice.
\<close>

theorem die_twice_counterexample:
  "trace (snd (snd (die (snd dyingA)))) =
     trace (snd startedA) @ [TreeKill 1 SIGTERM, TreeKill 1 SIGTERM] \<and>
   filter (\<lambda>m. m = (INFO, ''A: cleaning up'')) (logged (snd (snd (die (snd dyingA))))) =
     [(INFO, ''A: cleaning up''), (INFO, ''A: cleaning up'')]"
proof -
  have p0: "processes (fst uiA) = [fst startedA]"
    by (simp add: uiA_def)
  have p1: "processes (fst (snd dyingA)) = [fst startedA]"
    by (simp add: dyingA_unfold)
  have d: "dyingA = die (fst uiA, snd uiA)"
    by (simp add: dyingA_def)
  have w0: "snd uiA = snd startedA"
    by (simp add: uiA_def)
  have t1: "trace (snd (snd dyingA)) = trace (snd startedA) @ [TreeKill 1 SIGTERM]"
    by (simp add: dyingA_unfold)
  have l1: "logged (snd (snd dyingA)) =
      logged (snd startedA) @ [(INFO, ''cleaning up...''), (INFO, ''A: cleaning up''), (INFO, ''A: shutting down'')]"
    by (simp add: d die_on_startedA(5) [OF p0] w0)
  have again: "die (snd dyingA) = die (fst (snd dyingA), snd (snd dyingA))"
    by simp
  have t2: "trace (snd (snd (die (snd dyingA)))) = trace (snd (snd dyingA)) @ [TreeKill 1 SIGTERM]"
    by (subst again) (rule die_on_startedA(4) [OF p1])
  have l2: "logged (snd (snd (die (snd dyingA)))) =
      logged (snd (snd dyingA)) @ [(INFO, ''cleaning up...''), (INFO, ''A: cleaning up''), (INFO, ''A: shutting down'')]"
    by (subst again) (rule die_on_startedA(5) [OF p1])
  show ?thesis
    by (simp add: t2 t1 l2 l1 startedA_logged)
qed

text \<open>
  Claim C3, amended. The one-shot guard is that of \<open>cleanExit\<close>, the handler of CTRL_C,
  SIGINT and SIGTERM. A call of \<open>cleanExit\<close> leaves its flag set, nothing else writes the
  flag, and a call that finds it set returns at once and leaves the whole state as it is,
  whatever has happened to the supervisor and the world in between. So of two calls of
  \<open>cleanExit\<close>, also when the second comes while the first is waiting, only the first calls
  \<open>die\<close>, and that call of \<open>die\<close> makes one call of \<open>stop\<close> per process.
\<close>

theorem cleanExit_runs_die_once:
  "cleanExit_stopped (snd (cleanExit M)) \<and>
   (cleanExit_stopped M' \<longrightarrow> cleanExit M' = (CleanExitReturned, M')) \<and>
   cleanExit_stopped (snd (cleanExit_advance t M)) = cleanExit_stopped M \<and>
   cleanExit ((snd (cleanExit M))\<lparr>ui := U, os := w\<rparr>) =
     (CleanExitReturned, (snd (cleanExit M))\<lparr>ui := U, os := w\<rparr>) \<and>
   (\<not> cleanExit_stopped M \<longrightarrow>
      fst (cleanExit M) = CleanExitAwaiting (fst (die (ui M, emit TerminalReset (os M)))) \<and>
      ui (snd (cleanExit M)) = fst (snd (die (ui M, emit TerminalReset (os M)))) \<and>
      os (snd (cleanExit M)) = snd (snd (die (ui M, emit TerminalReset (os M))))) \<and>
   (\<exists>ts. fst (die (U, w)) = DieAwaiting (now w) ts \<and> length ts = length (processes U))"
proof -
  have a: "cleanExit_stopped (snd (cleanExit M))"
    by (simp add: cleanExit_def Let_def split_def)
  have b: "cleanExit_stopped M' \<longrightarrow> cleanExit M' = (CleanExitReturned, M')"
    by (simp add: cleanExit_def)
  have c: "cleanExit_stopped (snd (cleanExit_advance t M)) = cleanExit_stopped M"
    by (simp add: cleanExit_advance_def Let_def split_def split: exit_task.splits die_task.splits)
  have d: "cleanExit ((snd (cleanExit M))\<lparr>ui := U, os := w\<rparr>) =
     (CleanExitReturned, (snd (cleanExit M))\<lparr>ui := U, os := w\<rparr>)"
    using a by (simp add: cleanExit_def)
  have e: "\<not> cleanExit_stopped M \<longrightarrow>
      fst (cleanExit M) = CleanExitAwaiting (fst (die (ui M, emit TerminalReset (os M)))) \<and>
      ui (snd (cleanExit M)) = fst (snd (die (ui M, emit TerminalReset (os M)))) \<and>
      os (snd (cleanExit M)) = snd (snd (die (ui M, emit TerminalReset (os M))))"
    by (simp add: cleanExit_def Let_def split_def)
  have len: "length (fst (fst (stop_each Ps w'))) = length Ps" for Ps w'
    by (induction Ps arbitrary: w') (simp_all add: split_def Let_def)
  have f: "\<exists>ts. fst (die (U, w)) = DieAwaiting (now w) ts \<and> length ts = length (processes U)"
    by (simp add: die_def Let_def split_def len)
  from a b c d e f show ?thesis
    by blast
qed

text \<open>Two calls of \<open>cleanExit\<close> on the supervisor of process \<open>A\<close>: child 1 is tree-killed once.\<close>

theorem cleanExit_runs_die_once_witness:
  "fst (cleanExit mainA) = CleanExitAwaiting (DieAwaiting 0 [Awaiting (Exit 1) AfterStartPromise]) \<and>
   trace (os (snd (cleanExit mainA))) = trace (snd startedA) @ [TerminalReset, TreeKill 1 SIGTERM] \<and>
   cleanExit (snd (cleanExit mainA)) = (CleanExitReturned, snd (cleanExit mainA))"
proof -
  have fresh: "\<not> cleanExit_stopped mainA"
    by (simp add: mainA_def)
  have p0: "processes (ui mainA) = [fst startedA]"
    by (simp add: mainA_def uiA_def)
  have o: "os mainA = snd startedA"
    by (simp add: mainA_def uiA_def)
  have n: "now (snd startedA) = 0"
    by (simp add: startedA_def start_unfold) (simp add: boot_def)
  have same: "(snd (cleanExit mainA))\<lparr>ui := ui (snd (cleanExit mainA)), os := os (snd (cleanExit mainA))\<rparr>
      = snd (cleanExit mainA)"
    by simp
  from cleanExit_runs_die_once [where M = mainA and M' = mainA and t = CleanExitReturned
      and U = "ui (snd (cleanExit mainA))" and w = "os (snd (cleanExit mainA))"] fresh
  show ?thesis
    by (simp add: same die_on_startedA [OF p0] o n)
qed

section \<open>The state graph\<close>

lemma unshift_StartMenu:
  "g m = Some n \<Longrightarrow> menu n = Some xs \<Longrightarrow> unshift m x g = g(m \<mapsto> n\<lparr>menu := Some (x # xs)\<rparr>)"
  by (simp add: unshift_def)

lemma add_process_StartMenu:
  assumes "g StartMenu = Some m" "menu m = Some xs"
  shows "add_process i P g StartMenu = Some (m\<lparr>menu := Some (ProcessTail i # xs)\<rparr>)"
  using assms by (simp add: add_process_def Let_def unshift_def)

lemma add_process_tail:
  assumes "g StartMenu = Some m" "menu m = Some xs"
  shows "add_process i P g (ProcessTail i) =
           Some ((node (name P @ '':tail''))
                   \<lparr>getAction := Some (TailAction i), onAnyKeypress := Some (ProcessMenu i)\<rparr>)"
  using assms by (simp add: add_process_def Let_def unshift_def)

lemma add_process_other:
  assumes "r \<noteq> StartMenu" "r \<noteq> ProcessTail i" "r \<noteq> ProcessRestart i" "r \<noteq> ProcessRebuild i"
    "r \<noteq> ProcessMenu i"
  shows "add_process i P g r = g r"
  using assms by (simp add: add_process_def Let_def unshift_def split: option.splits)

lemma build_loop_invariant:
  assumes "g StartMenu = Some m" "menu m = Some (rev (map ProcessTail [0..<i]) @ base)" "i \<le> length ps"
    "\<forall>j<i. g (ProcessTail j) = Some ((node (name (ps ! j) @ '':tail''))
            \<lparr>getAction := Some (TailAction j), onAnyKeypress := Some (ProcessMenu j)\<rparr>)"
  shows "(\<exists>m'. build_loop i ps g StartMenu = Some m' \<and> node_name m' = node_name m \<and>
            getAction m' = getAction m \<and> onAnyKeypress m' = onAnyKeypress m \<and>
            onActionComplete m' = onActionComplete m \<and>
            menu m' = Some (rev (map ProcessTail [0..<length ps]) @ base)) \<and>
         (\<forall>j<length ps. build_loop i ps g (ProcessTail j) =
            Some ((node (name (ps ! j) @ '':tail''))
                    \<lparr>getAction := Some (TailAction j), onAnyKeypress := Some (ProcessMenu j)\<rparr>)) \<and>
         build_loop i ps g RebuildAll = g RebuildAll \<and>
         build_loop i ps g Quit = g Quit"
  using assms
proof (induction i ps g arbitrary: m rule: build_loop.induct)
  case (1 i ps g)
  show ?case
  proof (cases "i < length ps")
    case False
    with "1.prems" have "i = length ps" by simp
    with "1.prems" False show ?thesis
      by (subst (1 2 3 4) build_loop.simps) simp
  next
    case True
    let ?g = "add_process i (ps ! i) g"
    let ?m = "m\<lparr>menu := Some (ProcessTail i # rev (map ProcessTail [0..<i]) @ base)\<rparr>"
    have sm: "?g StartMenu = Some ?m"
      using add_process_StartMenu [where g = g and m = m, OF "1.prems"(1,2)] by simp
    have mm: "menu ?m = Some (rev (map ProcessTail [0..<Suc i]) @ base)"
      by simp
    have le: "Suc i \<le> length ps"
      using True by simp
    have tails: "\<forall>j<Suc i. ?g (ProcessTail j) = Some ((node (name (ps ! j) @ '':tail''))
            \<lparr>getAction := Some (TailAction j), onAnyKeypress := Some (ProcessMenu j)\<rparr>)"
    proof (intro allI impI)
      fix j assume "j < Suc i"
      show "?g (ProcessTail j) = Some ((node (name (ps ! j) @ '':tail''))
            \<lparr>getAction := Some (TailAction j), onAnyKeypress := Some (ProcessMenu j)\<rparr>)"
      proof (cases "j = i")
        case True
        then show ?thesis
          using add_process_tail [where g = g and m = m, OF "1.prems"(1,2), of i "ps ! i"]
          by (simp add: node_def)
      next
        case False
        with \<open>j < Suc i\<close> have "j < i" by simp
        moreover have "?g (ProcessTail j) = g (ProcessTail j)"
          using False by (simp add: add_process_other)
        ultimately show ?thesis
          using "1.prems"(4) by simp
      qed
    qed
    note IH = "1.IH" [OF True sm mm le tails]
    have unfold: "build_loop i ps g = build_loop (Suc i) ps ?g"
      using True by (subst build_loop.simps) simp
    have keep: "?g RebuildAll = g RebuildAll" "?g Quit = g Quit"
      by (simp_all add: add_process_other)
    from IH show ?thesis
      by (simp add: unfold keep)
  qed
qed


lemma initial_graph:
  "unshift StartMenu RebuildAll
     [Placeholder \<mapsto> node ''onAnyKeypress'',
      Quit \<mapsto> (node ''quit'')\<lparr>getAction := Some DieAction\<rparr>,
      StartMenu \<mapsto> (node ''main menu'')\<lparr>menu := Some [Quit]\<rparr>,
      RebuildAll \<mapsto> (node ''rebuild all processes'')
                    \<lparr>getAction := Some RebuildAllAction, onActionComplete := Some StartMenu\<rparr>]
   = [Placeholder \<mapsto> node ''onAnyKeypress'',
      Quit \<mapsto> (node ''quit'')\<lparr>getAction := Some DieAction\<rparr>,
      RebuildAll \<mapsto> (node ''rebuild all processes'')
                    \<lparr>getAction := Some RebuildAllAction, onActionComplete := Some StartMenu\<rparr>,
      StartMenu \<mapsto> (node ''main menu'')\<lparr>menu := Some [RebuildAll, Quit]\<rparr>]"
  by (rule ext) (simp add: unshift_def)

lemma main_menu_built:
  "\<exists>m. fst (buildStateGraph ps) StartMenu = Some m \<and> node_name m = ''main menu'' \<and>
       getAction m = None \<and> onAnyKeypress m = None \<and> onActionComplete m = None \<and>
       menu m = Some (rev (map ProcessTail [0..<length ps]) @ [RebuildAll, Quit])"
  and main_menu_tails:
  "\<forall>j<length ps. fst (buildStateGraph ps) (ProcessTail j) =
       Some ((node (name (ps ! j) @ '':tail''))
               \<lparr>getAction := Some (TailAction j), onAnyKeypress := Some (ProcessMenu j)\<rparr>)"
  and main_menu_rebuild:
  "fst (buildStateGraph ps) RebuildAll =
     Some ((node ''rebuild all processes'')
             \<lparr>getAction := Some RebuildAllAction, onActionComplete := Some StartMenu\<rparr>)"
  and main_menu_quit:
  "fst (buildStateGraph ps) Quit = Some ((node ''quit'')\<lparr>getAction := Some DieAction\<rparr>)"
proof -
  let ?g1 = "[Placeholder \<mapsto> node ''onAnyKeypress'',
      Quit \<mapsto> (node ''quit'')\<lparr>getAction := Some DieAction\<rparr>,
      RebuildAll \<mapsto> (node ''rebuild all processes'')
                    \<lparr>getAction := Some RebuildAllAction, onActionComplete := Some StartMenu\<rparr>,
      StartMenu \<mapsto> (node ''main menu'')\<lparr>menu := Some [RebuildAll, Quit]\<rparr>]"
  let ?m = "(node ''main menu'')\<lparr>menu := Some [RebuildAll, Quit]\<rparr>"
  have g: "fst (buildStateGraph ps) = build_loop 0 ps ?g1"
    by (simp add: buildStateGraph_def Let_def initial_graph)
  have a: "?g1 StartMenu = Some ?m" by simp
  have b: "menu ?m = Some (rev (map ProcessTail [0..<0]) @ [RebuildAll, Quit])" by simp
  have c: "0 \<le> length ps" by simp
  have d: "\<forall>j<0. ?g1 (ProcessTail j) = Some ((node (name (ps ! j) @ '':tail''))
            \<lparr>getAction := Some (TailAction j), onAnyKeypress := Some (ProcessMenu j)\<rparr>)"
    by simp
  note inv = build_loop_invariant [where g = ?g1 and m = ?m, OF a b c d]
  from inv show "\<exists>m. fst (buildStateGraph ps) StartMenu = Some m \<and> node_name m = ''main menu'' \<and>
       getAction m = None \<and> onAnyKeypress m = None \<and> onActionComplete m = None \<and>
       menu m = Some (rev (map ProcessTail [0..<length ps]) @ [RebuildAll, Quit])"
    by (simp add: g node_def)
  from inv show "\<forall>j<length ps. fst (buildStateGraph ps) (ProcessTail j) =
       Some ((node (name (ps ! j) @ '':tail''))
               \<lparr>getAction := Some (TailAction j), onAnyKeypress := Some (ProcessMenu j)\<rparr>)"
    by (simp add: g)
  from inv show "fst (buildStateGraph ps) RebuildAll =
     Some ((node ''rebuild all processes'')
             \<lparr>getAction := Some RebuildAllAction, onActionComplete := Some StartMenu\<rparr>)"
    by (simp add: g)
  from inv show "fst (buildStateGraph ps) Quit = Some ((node ''quit'')\<lparr>getAction := Some DieAction\<rparr>)"
    by (simp add: g)
qed

lemma tail_names:
  "map (\<lambda>r. case fst (buildStateGraph ps) r of None \<Rightarrow> [] | Some n \<Rightarrow> node_name n)
     (map ProcessTail [0..<length ps]) = map (\<lambda>P. name P @ '':tail'') ps"
proof (rule nth_equalityI)
  show "length (map (\<lambda>r. case fst (buildStateGraph ps) r of None \<Rightarrow> [] | Some n \<Rightarrow> node_name n)
     (map ProcessTail [0..<length ps])) = length (map (\<lambda>P. name P @ '':tail'') ps)"
    by simp
next
  fix j
  assume "j < length (map (\<lambda>r. case fst (buildStateGraph ps) r of None \<Rightarrow> [] | Some n \<Rightarrow> node_name n)
     (map ProcessTail [0..<length ps]))"
  then have j: "j < length ps" by simp
  with main_menu_tails [of ps] have
    "fst (buildStateGraph ps) (ProcessTail j) =
       Some ((node (name (ps ! j) @ '':tail''))
               \<lparr>getAction := Some (TailAction j), onAnyKeypress := Some (ProcessMenu j)\<rparr>)"
    by blast
  with j show "map (\<lambda>r. case fst (buildStateGraph ps) r of None \<Rightarrow> [] | Some n \<Rightarrow> node_name n)
     (map ProcessTail [0..<length ps]) ! j = map (\<lambda>P. name P @ '':tail'') ps ! j"
    by (simp add: node_def)
qed

text \<open>
  Claim C10. For processes \<open>P1, ..., Pn\<close> in configuration order, \<open>buildStateGraph\<close> returns the
  main menu as the start node, and the options of the main menu are the tail nodes of the
  processes in reverse configuration order, then \<open>rebuild all processes\<close>, then \<open>quit\<close>. The
  names behind these references are \<open>Pn:tail, ..., P1:tail, rebuild all processes, quit\<close>, and
  they are the items \<open>handleNextState\<close> hands to the choice prompt on entering the start node.
\<close>

theorem main_menu_order:
  "snd (buildStateGraph ps) = StartMenu \<and>
   (\<exists>m. fst (buildStateGraph ps) StartMenu = Some m \<and> node_name m = ''main menu'' \<and>
        menu m = Some (rev (map ProcessTail [0..<length ps]) @ [RebuildAll, Quit])) \<and>
   map (\<lambda>r. case fst (buildStateGraph ps) r of None \<Rightarrow> [] | Some n \<Rightarrow> node_name n)
     (rev (map ProcessTail [0..<length ps]) @ [RebuildAll, Quit]) =
     rev (map (\<lambda>P. name P @ '':tail'') ps) @ [''rebuild all processes'', ''quit''] \<and>
   handleNextState (fst (buildStateGraph ps)) False (Some (snd (buildStateGraph ps))) [] =
     ([Entered ''main menu'',
       ChoicePrompt ''main menu''
         (rev (map (\<lambda>P. name P @ '':tail'') ps) @ [''rebuild all processes'', ''quit''])],
      Waiting)"
proof -
  let ?g = "fst (buildStateGraph ps)"
  have s: "snd (buildStateGraph ps) = StartMenu"
    by (simp add: buildStateGraph_def Let_def)
  from main_menu_built [of ps] obtain m where m: "?g StartMenu = Some m" "node_name m = ''main menu''"
    "getAction m = None" "onAnyKeypress m = None" "onActionComplete m = None"
    "menu m = Some (rev (map ProcessTail [0..<length ps]) @ [RebuildAll, Quit])"
    by blast
  have names: "map (\<lambda>r. case ?g r of None \<Rightarrow> [] | Some n \<Rightarrow> node_name n)
     (rev (map ProcessTail [0..<length ps]) @ [RebuildAll, Quit]) =
     rev (map (\<lambda>P. name P @ '':tail'') ps) @ [''rebuild all processes'', ''quit'']"
    using tail_names [of ps]
    by (simp add: rev_map [symmetric] main_menu_rebuild main_menu_quit node_def)
  have shown: "handleNextState ?g False (Some StartMenu) [] =
     ([Entered ''main menu'',
       ChoicePrompt ''main menu''
         (rev (map (\<lambda>P. name P @ '':tail'') ps) @ [''rebuild all processes'', ''quit''])],
      Waiting)"
    using names by (subst handleNextState.simps) (simp add: m Let_def)
  from s m names shown show ?thesis
    by simp
qed

text \<open>The graph of the processes \<open>A\<close> and \<open>C\<close>.\<close>

theorem main_menu_order_witness:
  "handleNextState (fst (buildStateGraph [procA, procC])) False (Some StartMenu) [] =
     ([Entered ''main menu'',
       ChoicePrompt ''main menu'' [''C:tail'', ''A:tail'', ''rebuild all processes'', ''quit'']],
      Waiting)"
proof -
  have nm: "name procA = ''A''" "name procC = ''C''"
    by (simp_all add: sample_defs)
  from main_menu_order [of "[procA, procC]"] show ?thesis
    by (clarsimp simp: nm)
qed

section \<open>Selecting from a menu\<close>

text \<open>
  Claim C9. Let \<open>M\<close> be a node that \<open>handleNextState\<close> handles as a menu (it has \<open>menu\<close> and
  neither \<open>onActionComplete\<close> nor \<open>onAnyKeypress\<close>), entered with \<open>stopped\<close> unset. When the
  choice prompt delivers an index within the option list, the node \<open>handleNextState\<close> is
  called on next is the entry of the list at that index. When the index is negative, equal to
  the length or beyond it, the next node is \<open>undefined\<close>; nothing clamps the index or checks
  it, and the call on \<open>undefined\<close> ends in the TypeError of reading its name (unless the
  action started on entering \<open>M\<close> was \<open>die\<close>, which stops the traversal before).
\<close>

theorem menu_selects_index:
  assumes "g r = Some M" and "onActionComplete M = None" and "onAnyKeypress M = None"
    and "menu M = Some options"
  shows "(0 \<le> index \<and> nat index < length options \<longrightarrow>
            handleNextState g False (Some r) (Selected index # rest) =
              (Entered (node_name M) # (case getAction M of None \<Rightarrow> [] | Some a \<Rightarrow> [Started a])
                 @ [ChoicePrompt (node_name M)
                      (map (\<lambda>r. case g r of None \<Rightarrow> [] | Some m \<Rightarrow> node_name m) options)]
                 @ (case getAction M of None \<Rightarrow> [] | Some a \<Rightarrow> [Stopped a])
                 @ fst (handleNextState g (getAction M = Some DieAction) (Some (options ! nat index)) rest),
               snd (handleNextState g (getAction M = Some DieAction) (Some (options ! nat index)) rest))) \<and>
         (index < 0 \<or> length options \<le> nat index \<longrightarrow>
            handleNextState g False (Some r) (Selected index # rest) =
              (Entered (node_name M) # (case getAction M of None \<Rightarrow> [] | Some a \<Rightarrow> [Started a])
                 @ [ChoicePrompt (node_name M)
                      (map (\<lambda>r. case g r of None \<Rightarrow> [] | Some m \<Rightarrow> node_name m) options)]
                 @ (case getAction M of None \<Rightarrow> [] | Some a \<Rightarrow> [Stopped a]),
               if getAction M = Some DieAction then Halted else Crashed))"
proof -
  have undefined_node: "handleNextState g flag None rest = ([], if flag then Halted else Crashed)" for flag
    by (subst handleNextState.simps) simp
  show ?thesis
    using assms
    by (subst (1 2) handleNextState.simps)
       (auto simp: Let_def value_at_def split_def undefined_node)
qed

text \<open>
  In the graph of \<open>A\<close> and \<open>C\<close>, index 1 of the main menu leads to \<open>A:tail\<close>; index 4, the
  length of the menu, ends in the TypeError.
\<close>

theorem menu_selects_index_witness:
  "handleNextState (fst (buildStateGraph [procA, procC])) False (Some StartMenu) [Selected 1] =
     ([Entered ''main menu'',
       ChoicePrompt ''main menu'' [''C:tail'', ''A:tail'', ''rebuild all processes'', ''quit''],
       Entered ''A:tail'', Started (TailAction 0)], Waiting) \<and>
   handleNextState (fst (buildStateGraph [procA, procC])) False (Some StartMenu) [Selected 4] =
     ([Entered ''main menu'',
       ChoicePrompt ''main menu'' [''C:tail'', ''A:tail'', ''rebuild all processes'', ''quit'']],
      Crashed)"
proof -
  let ?g = "fst (buildStateGraph [procA, procC])"
  from main_menu_built [of "[procA, procC]"] obtain m where m: "?g StartMenu = Some m"
    "node_name m = ''main menu''" "getAction m = None" "onAnyKeypress m = None"
    "onActionComplete m = None" "menu m = Some [ProcessTail 1, ProcessTail 0, RebuildAll, Quit]"
    by (auto simp: numeral_2_eq_2)
  have nm: "name procA = ''A''" "name procC = ''C''"
    by (simp_all add: sample_defs)
  have t0: "?g (ProcessTail 0) =
      Some ((node ''A:tail'')\<lparr>getAction := Some (TailAction 0), onAnyKeypress := Some (ProcessMenu 0)\<rparr>)"
    using main_menu_tails [of "[procA, procC]"] by (simp add: nm)
  have t1: "?g (ProcessTail 1) =
      Some ((node ''C:tail'')\<lparr>getAction := Some (TailAction 1), onAnyKeypress := Some (ProcessMenu 1)\<rparr>)"
    using main_menu_tails [of "[procA, procC]"] by (simp add: nm)
  have tail: "handleNextState ?g False (Some (ProcessTail 0)) [] =
      ([Entered ''A:tail'', Started (TailAction 0)], Waiting)"
    by (subst handleNextState.simps) (simp add: t0 node_def)
  note th = menu_selects_index [where g = ?g and r = StartMenu and M = m, OF m(1) m(5) m(4) m(6)]
  from th [of 1 "[]"] th [of 4 "[]"] t1 show ?thesis
    by (simp add: m t0 tail main_menu_rebuild main_menu_quit node_def)
qed

section \<open>The earlier revision of stop\<close>

text \<open>
  The earlier \<open>stop\<close> rejects with \<open>Not started yet\<close> on a process that was never started, and
  its last step, after the run future, empties the log file.
\<close>

lemma legacy_stop_not_started:
  "startPromise P = None \<Longrightarrow> legacy_stop (P, w) = (LegacyThrew ''Not started yet'', (P, w))"
  by (simp add: legacy_stop_def)

lemma legacy_stop_truncates:
  "files (snd (snd (legacy_resume LegacyAfterStartPromise (P, w)))) (fst (getLogPath (P, w))) = Some []"
  by (simp add: split_def Let_def)

end
